theory Spec2Isabelle
  imports Main
begin

section \<open>Kernel vocabulary used by \<^verbatim>\<open>process_info.c\<close>\<close>

text \<open>
  The module is a Linux kernel module. Everything it calls from the kernel is modelled
  here as plainly as the module observes it. Integers are modelled as \<open>int\<close>/\<open>nat\<close>
  with every narrowing conversion written out (\<open>signed_take_bit 31\<close> is the conversion
  to a 32-bit \<^verbatim>\<open>int\<close>/\<^verbatim>\<open>pid_t\<close>, \<open>signed_take_bit 63\<close> the one to a 64-bit
  \<^verbatim>\<open>long long\<close>). The data model is LP64: \<^verbatim>\<open>long\<close> and \<^verbatim>\<open>long long\<close> are
  both 64 bits wide, \<^verbatim>\<open>int\<close> and \<^verbatim>\<open>pid_t\<close> are 32 bits wide.
\<close>

datatype errno = EINVAL | EFAULT | ENOENT | ERANGE | ENAMETOOLONG

text \<open>\<^verbatim>\<open>PATH_MAX\<close> is 4096 on every architecture (\<^verbatim>\<open>include/uapi/linux/limits.h\<close>).\<close>

definition PATH_MAX :: nat where
  "PATH_MAX = 4096"

definition ULLONG_MAX :: nat where
  "ULLONG_MAX = 2 ^ 64 - 1"

definition newline :: char where
  "newline = CHR 0x0A"

text \<open>A C string stored in a byte array ends at the first NUL byte.\<close>

definition c_string :: "char list \<Rightarrow> string" where
  "c_string bytes = takeWhile (\<lambda>c. c \<noteq> CHR 0x00) bytes"

subsection \<open>Formatting \<^verbatim>\<open>%d\<close>\<close>

definition digit_char :: "nat \<Rightarrow> char" where
  "digit_char d = ''0123456789'' ! d"

fun show_nat :: "nat \<Rightarrow> string" where
  "show_nat n = (if n < 10 then [digit_char n] else show_nat (n div 10) @ [digit_char (n mod 10)])"

declare show_nat.simps [simp del]

definition show_int :: "int \<Rightarrow> string" where
  "show_int i = (if i < 0 then CHR ''-'' # show_nat (nat (- i)) else show_nat (nat i))"

subsection \<open>The decimal parser \<^verbatim>\<open>kstrtol\<close> (kernel library, \<^verbatim>\<open>lib/kstrtox.c\<close>)\<close>

text \<open>
  \<^verbatim>\<open>kstrtol\<close> is not part of the module; it is modelled after the kernel library routine
  it links against. The value of a digit character, as \<^verbatim>\<open>_parse_integer\<close> computes it:
  decimal digits, then the letters a to f in either case (\<^verbatim>\<open>_tolower\<close> sets bit 5).
\<close>

definition digit_val :: "char \<Rightarrow> nat option" where
  "digit_val ch =
     (let c = (of_char ch :: nat); lc = or c 32 in
      if 48 \<le> c \<and> c \<le> 57 then Some (c - 48)
      else if 97 \<le> lc \<and> lc \<le> 102 then Some (lc - 97 + 10)
      else None)"

text \<open>
  The loop of \<^verbatim>\<open>_parse_integer\<close>: \<open>res\<close> is the 64-bit unsigned accumulator, \<open>rv\<close> the
  number of characters consumed and \<open>ovf\<close> the sticky \<^verbatim>\<open>KSTRTOX_OVERFLOW\<close> flag. The
  overflow test is only made once one of the top four bits of \<open>res\<close> is set, that is
  once \<open>2 ^ 60 \<le> res\<close>. The end of the list is the terminating NUL.
\<close>

fun parse_integer :: "string \<Rightarrow> nat \<Rightarrow> nat \<Rightarrow> nat \<Rightarrow> bool \<Rightarrow> nat \<times> nat \<times> bool" where
  "parse_integer [] base res rv ovf = (res, rv, ovf)"
| "parse_integer (c # s) base res rv ovf =
     (case digit_val c of
        None \<Rightarrow> (res, rv, ovf)
      | Some val \<Rightarrow>
          if val \<ge> base then (res, rv, ovf)
          else parse_integer s base ((res * base + val) mod 2 ^ 64) (rv + 1)
                 (ovf \<or> (2 ^ 60 \<le> res \<and> res > (ULLONG_MAX - val) div base)))"

text \<open>
  \<^verbatim>\<open>_kstrtoull\<close>: at least one digit, no overflow, then at most one newline, then the
  end of the string. (The radix prefix handling applies to bases 0 and 16 only; the
  module passes base 10.)
\<close>

definition kstrtoull_raw :: "string \<Rightarrow> nat \<Rightarrow> errno + nat" where
  "kstrtoull_raw s base =
     (case parse_integer s base 0 0 False of
        (res, rv, ovf) \<Rightarrow>
          if ovf then Inl ERANGE
          else if rv = 0 then Inl EINVAL
          else (let s1 = drop rv s;
                    s2 = (case s1 of [] \<Rightarrow> s1 | c # t \<Rightarrow> if c = newline then t else s1)
                in if s2 \<noteq> [] then Inl EINVAL else Inr res))"

definition kstrtoull :: "string \<Rightarrow> nat \<Rightarrow> errno + nat" where
  "kstrtoull s base =
     (case s of
        [] \<Rightarrow> kstrtoull_raw s base
      | c # t \<Rightarrow> if c = CHR ''+'' then kstrtoull_raw t base else kstrtoull_raw s base)"

definition kstrtoll :: "string \<Rightarrow> nat \<Rightarrow> errno + int" where
  "kstrtoll s base =
     (if s \<noteq> [] \<and> hd s = CHR ''-'' then
        (case kstrtoull_raw (tl s) base of
           Inl e \<Rightarrow> Inl e
         | Inr tmp \<Rightarrow>
             if signed_take_bit 63 (- int tmp) > 0 then Inl ERANGE
             else Inr (signed_take_bit 63 (- int tmp)))
      else
        (case kstrtoull s base of
           Inl e \<Rightarrow> Inl e
         | Inr tmp \<Rightarrow>
             if signed_take_bit 63 (int tmp) < 0 then Inl ERANGE
             else Inr (signed_take_bit 63 (int tmp))))"

text \<open>With a 64-bit \<^verbatim>\<open>long\<close>, \<^verbatim>\<open>kstrtol\<close> is \<^verbatim>\<open>kstrtoll\<close>.\<close>

definition kstrtol :: "string \<Rightarrow> nat \<Rightarrow> errno + int" where
  "kstrtol s base = kstrtoll s base"

section \<open>The write handler\<close>

text \<open>
  The caller's buffer: its bytes (the handler's \<^verbatim>\<open>len\<close> is their number) and whether
  reading them faults. \<^verbatim>\<open>copy_from_user\<close> of zero bytes never fails.
\<close>

record user_buffer =
  ubytes :: "char list"
  ufault :: bool

definition copy_from_user :: "user_buffer \<Rightarrow> char list option" where
  "copy_from_user buf = (if ufault buf \<and> ubytes buf \<noteq> [] then None else Some (ubytes buf))"

text \<open>
  \<^verbatim>\<open>process_info_write\<close>: the state is the module variable \<^verbatim>\<open>requested_pid\<close>; the
  result is the error or the byte count returned, and the new value of the variable.
\<close>

definition process_info_write :: "int \<Rightarrow> user_buffer \<Rightarrow> (errno + nat) \<times> int" where
  "process_info_write requested_pid buffer =
     (let len = length (ubytes buffer) in
      if len > 31 then (Inl EINVAL, requested_pid)
      else
        (case copy_from_user buffer of
           None \<Rightarrow> (Inl EFAULT, requested_pid)
         | Some pid_buffer \<Rightarrow>
             (case kstrtol (c_string pid_buffer) 10 of
                Inl e \<Rightarrow> (Inl EINVAL, requested_pid)
              | Inr pid_value \<Rightarrow> (Inr len, signed_take_bit 31 pid_value))))"

text \<open>The initial value of \<^verbatim>\<open>requested_pid\<close>.\<close>

definition initial_pid :: int where
  "initial_pid = - 1"

section \<open>The read handler\<close>

subsection \<open>Kernel objects\<close>

text \<open>
  What the handler reads of a \<^verbatim>\<open>struct file\<close>, a \<^verbatim>\<open>struct mm_struct\<close> and a
  \<^verbatim>\<open>struct task_struct\<close>. \<open>task_uid\<close> is the value of
  \<^verbatim>\<open>from_kuid_munged(current_user_ns(), task_uid(task))\<close>, an unsigned 32-bit
  \<^verbatim>\<open>uid_t\<close>. The argument boundaries are \<^verbatim>\<open>unsigned long\<close> addresses.

  \<^verbatim>\<open>get_task_mm(task)\<close> is called twice in one read of a process that has a memory
  map: by \<^verbatim>\<open>process_info_show\<close> (line 123) and then by \<^verbatim>\<open>read_cmdline\<close> (line 54),
  after three allocations. The process may exit or replace its memory map in between,
  so the two calls have separate answers: \<open>mm\<close> is what a call on the task returns,
  and \<open>mm_again\<close> what the later call of the same read returns.
\<close>

record struct_file =
  f_path :: string

record mm_struct =
  arg_start :: nat
  arg_end :: nat
  exe_file :: "struct_file option"

record task_struct =
  task_uid :: nat
  mm :: "mm_struct option"
  mm_again :: "mm_struct option"

text \<open>
  The kernel as one read finds it: the page size, the process table
  (\<^verbatim>\<open>pid_task(find_vpid(pid), PIDTYPE_PID)\<close>), the outcome of \<^verbatim>\<open>d_path\<close> for a path
  and a buffer length, whether each of the three \<^verbatim>\<open>kmalloc\<close> calls (in the order of
  the source) returns a buffer, and the bytes an uninitialised buffer holds.
\<close>

record kernel =
  PAGE_SIZE :: nat
  pid_task :: "int \<Rightarrow> task_struct option"
  d_path :: "string \<Rightarrow> nat \<Rightarrow> errno + string"
  kmalloc_exec_path :: bool
  kmalloc_buffer :: bool
  kmalloc_cmdline :: bool
  uninitialised :: string

text \<open>
  The calls that take or give back a resource, in the order the handler makes them.
  \<open>GetTaskMm True\<close> is a call that returned a handle (and so took a reference),
  \<open>Kmalloc n flags ok\<close> a request for \<open>n\<close> bytes and whether it was served.
\<close>

datatype gfp_t = GFP_KERNEL | GFP_ATOMIC

datatype event =
    RcuReadLock
  | RcuReadUnlock
  | GetTaskMm bool
  | MmPut
  | DownRead
  | UpRead
  | Kmalloc nat gfp_t bool
  | Kfree

subsection \<open>\<^verbatim>\<open>read_cmdline\<close>\<close>

text \<open>
  The two string literals of \<^verbatim>\<open>read_cmdline\<close>, as the UTF-8 bytes of the source file:
  the text before and after \<^verbatim>\<open>%d\<close> in the format of \<^verbatim>\<open>snprintf\<close>, and the text
  copied when the argument region is empty.
\<close>

definition cmdline_prefix :: string where
  "cmdline_prefix =
     [CHR 0x5B, CHR 0xD0, CHR 0xBA, CHR 0xD0, CHR 0xBE, CHR 0xD0, CHR 0xBC, CHR 0xD0, CHR 0xB0,
      CHR 0xD0, CHR 0xBD, CHR 0xD0, CHR 0xB4, CHR 0xD0, CHR 0xBD, CHR 0xD0, CHR 0xB0, CHR 0xD1,
      CHR 0x8F, CHR 0x20, CHR 0xD1, CHR 0x81, CHR 0xD1, CHR 0x82, CHR 0xD1, CHR 0x80, CHR 0xD0,
      CHR 0xBE, CHR 0xD0, CHR 0xBA, CHR 0xD0, CHR 0xB0, CHR 0x20, CHR 0xD0, CHR 0xB4, CHR 0xD0,
      CHR 0xBB, CHR 0xD0, CHR 0xB8, CHR 0xD0, CHR 0xBD, CHR 0xD0, CHR 0xBE, CHR 0xD0, CHR 0xB9,
      CHR 0x20]"

definition cmdline_suffix :: string where
  "cmdline_suffix =
     [CHR 0x20, CHR 0xD0, CHR 0xB1, CHR 0xD0, CHR 0xB0, CHR 0xD0, CHR 0xB9, CHR 0xD1, CHR 0x82,
      CHR 0x5D]"

definition no_cmdline_text :: string where
  "no_cmdline_text =
     [CHR 0x5B, CHR 0xD0, CHR 0xBD, CHR 0xD0, CHR 0xB5, CHR 0xD1, CHR 0x82, CHR 0x20, CHR 0xD0,
      CHR 0xB4, CHR 0xD0, CHR 0xB0, CHR 0xD0, CHR 0xBD, CHR 0xD0, CHR 0xBD, CHR 0xD1, CHR 0x8B,
      CHR 0xD1, CHR 0x85, CHR 0x20, CHR 0xD0, CHR 0xBE, CHR 0x20, CHR 0xD0, CHR 0xBA, CHR 0xD0,
      CHR 0xBE, CHR 0xD0, CHR 0xBC, CHR 0xD0, CHR 0xB0, CHR 0xD0, CHR 0xBD, CHR 0xD0, CHR 0xB4,
      CHR 0xD0, CHR 0xBD, CHR 0xD0, CHR 0xBE, CHR 0xD0, CHR 0xB9, CHR 0x20, CHR 0xD1, CHR 0x81,
      CHR 0xD1, CHR 0x82, CHR 0xD1, CHR 0x80, CHR 0xD0, CHR 0xBE, CHR 0xD0, CHR 0xBA, CHR 0xD0,
      CHR 0xB5, CHR 0x5D]"

definition cmdline_length_text :: "int \<Rightarrow> string" where
  "cmdline_length_text len = cmdline_prefix @ show_int len @ cmdline_suffix"

text \<open>
  \<^verbatim>\<open>snprintf(buffer, size, ...)\<close> and \<^verbatim>\<open>strscpy(buffer, src, size)\<close> leave in the
  buffer at most \<open>count - 1\<close> bytes of the text and a terminator; with a count that is
  zero (or negative, hence above \<^verbatim>\<open>INT_MAX\<close> as a \<^verbatim>\<open>size_t\<close>) the kernel's versions
  write nothing. \<open>old\<close> is what the buffer held before.
\<close>

definition snprintf :: "string \<Rightarrow> int \<Rightarrow> string \<Rightarrow> string" where
  "snprintf old count str = (if count \<le> 0 then old else take (nat (count - 1)) str)"

definition strscpy :: "string \<Rightarrow> int \<Rightarrow> string \<Rightarrow> string" where
  "strscpy old count src = (if count \<le> 0 then old else take (nat (count - 1)) src)"

text \<open>
  \<^verbatim>\<open>read_cmdline(task, buffer, buf_size)\<close>. A pointer is \<open>None\<close> when it is
  \<^verbatim>\<open>NULL\<close>; a buffer is the C string it holds. The result is the value returned (an
  error stands for its negative number), the string the buffer holds afterwards, and the
  resource calls made. \<^verbatim>\<open>int len = mm->arg_end - mm->arg_start\<close> narrows the difference
  to 32 bits.
\<close>

definition read_cmdline ::
  "task_struct option \<Rightarrow> string option \<Rightarrow> int \<Rightarrow> (errno + int) \<times> string \<times> event list" where
  "read_cmdline task buffer buf_size =
     (case (buffer, task) of
        (Some old, Some t) \<Rightarrow>
          (case mm t of
             None \<Rightarrow> (Inl ENOENT, old, [GetTaskMm False])
           | Some m \<Rightarrow>
               if arg_end m > arg_start m then
                 (let len0 = signed_take_bit 31 (int ((arg_end m - arg_start m) mod 2 ^ 64));
                      len = (if len0 > buf_size - 1 then buf_size - 1 else len0);
                      new = snprintf old buf_size (cmdline_length_text len)
                  in (Inr (int (length new)), new, [GetTaskMm True, MmPut]))
               else
                 (let new = strscpy old buf_size no_cmdline_text
                  in (Inr (int (length new)), new, [GetTaskMm True, MmPut])))
      | (Some old, None) \<Rightarrow> (Inl EINVAL, old, [])
      | (None, _) \<Rightarrow> (Inl EINVAL, [], []))"

subsection \<open>\<^verbatim>\<open>process_info_show\<close>\<close>

text \<open>
  The block that fills \<^verbatim>\<open>exec_path\<close> (lines 125 to 146 of the source): the pointer
  afterwards, with the string it points to, and the resource calls made.
\<close>

definition show_exec_path :: "kernel \<Rightarrow> mm_struct \<Rightarrow> string option \<times> event list" where
  "show_exec_path k m =
     (if kmalloc_exec_path k then
        (let exec_path =
               (case exe_file m of
                  Some f \<Rightarrow>
                    (case d_path k (f_path f) PATH_MAX of
                       Inr tmp \<Rightarrow> tmp
                     | Inl e \<Rightarrow> ''Unknown'')
                | None \<Rightarrow> ''Unknown'')
         in (Some exec_path, [Kmalloc PATH_MAX GFP_KERNEL True, DownRead, UpRead]))
      else (None, [Kmalloc PATH_MAX GFP_KERNEL False]))"

text \<open>
  The block that fills \<^verbatim>\<open>cmdline\<close> (lines 148 to 162). \<^verbatim>\<open>read_cmdline\<close> asks for
  the memory map of the task again, and is answered by \<open>mm_again\<close>; when it fails,
  the terminator is written at index 0. Writing the terminator at
  index \<open>i\<close> cuts the string of the buffer to its first \<open>i\<close> bytes; the index is either
  the length of that string or 0. \<^verbatim>\<open>strncpy\<close> followed by the terminator at
  \<^verbatim>\<open>PAGE_SIZE - 1\<close> keeps at most \<^verbatim>\<open>PAGE_SIZE - 1\<close> bytes.
\<close>

definition show_cmdline :: "kernel \<Rightarrow> task_struct \<Rightarrow> string option \<times> event list" where
  "show_cmdline k task =
     (if kmalloc_buffer k then
        (if kmalloc_cmdline k then
           (case read_cmdline (Some (task\<lparr>mm := mm_again task\<rparr>)) (Some (uninitialised k))
                   (int (PAGE_SIZE k) - 1) of
              (r, buffer, ev) \<Rightarrow>
                (let arg_len = (case r of Inl e \<Rightarrow> 0 | Inr n \<Rightarrow> if n > 0 then n else 0);
                     buffer' = take (nat arg_len) buffer;
                     cmdline = take (PAGE_SIZE k - 1) buffer'
                 in (Some cmdline,
                     [Kmalloc (PAGE_SIZE k) GFP_KERNEL True, Kmalloc (PAGE_SIZE k) GFP_KERNEL True]
                       @ ev @ [Kfree])))
         else (None, [Kmalloc (PAGE_SIZE k) GFP_KERNEL True,
                      Kmalloc (PAGE_SIZE k) GFP_KERNEL False, Kfree]))
      else (None, [Kmalloc (PAGE_SIZE k) GFP_KERNEL False]))"

text \<open>
  What one call of \<^verbatim>\<open>process_info_show\<close> leaves behind: the value returned, the text
  printed into the \<^verbatim>\<open>seq_file\<close>, and the resource calls in order.
\<close>

record show_result =
  retval :: int
  seq :: string
  trace :: "event list"

definition string_or_unknown :: "string option \<Rightarrow> string" where
  "string_or_unknown p = (case p of Some s \<Rightarrow> s | None \<Rightarrow> ''Unknown'')"

definition process_info_show :: "kernel \<Rightarrow> int \<Rightarrow> show_result" where
  "process_info_show k requested_pid =
     (if requested_pid \<le> 0 then
        \<lparr>retval = 0, seq = ''No valid PID provided'' @ [newline], trace = []\<rparr>
      else
        (case pid_task k requested_pid of
           None \<Rightarrow>
             \<lparr>retval = 0,
              seq = ''Process with PID '' @ show_int requested_pid @ '' not found'' @ [newline],
              trace = [RcuReadLock, RcuReadUnlock]\<rparr>
         | Some task \<Rightarrow>
             (let uid = signed_take_bit 31 (int (task_uid task));
                  (exec_path, cmdline, ev) =
                    (case mm task of
                       None \<Rightarrow> (None, None, [GetTaskMm False])
                     | Some m \<Rightarrow>
                         (case show_exec_path k m of
                            (exec_path, ev1) \<Rightarrow>
                              (case show_cmdline k task of
                                 (cmdline, ev2) \<Rightarrow>
                                   (exec_path, cmdline, [GetTaskMm True] @ ev1 @ ev2 @ [MmPut]))))
              in \<lparr>retval = 0,
                  seq = ''PID: '' @ show_int requested_pid @ [newline]
                      @ ''UID: '' @ show_int uid @ [newline]
                      @ ''Executable: '' @ string_or_unknown exec_path @ [newline]
                      @ ''Command line: '' @ string_or_unknown cmdline @ [newline],
                  trace = [RcuReadLock] @ ev
                      @ (if exec_path \<noteq> None then [Kfree] else [])
                      @ (if cmdline \<noteq> None then [Kfree] else [])
                      @ [RcuReadUnlock]\<rparr>)))"

section \<open>Notions of the specification\<close>

subsection \<open>Decimal-integer text\<close>

text \<open>
  The specification has the write handler interpret its payload as a decimal-integer
  text string, with no tolerance for surrounding white space beyond what the numeric
  parser accepts. Written out: an optional sign \<open>+\<close> or \<open>-\<close>, one or more decimal
  digits, and at most one newline at the end. \<open>decimal_text_value\<close> is the integer such a
  text denotes, and \<open>None\<close> for any other text.
\<close>

definition is_digit :: "char \<Rightarrow> bool" where
  "is_digit c = (48 \<le> (of_char c :: nat) \<and> (of_char c :: nat) \<le> 57)"

definition digits_value_from :: "nat \<Rightarrow> string \<Rightarrow> nat" where
  "digits_value_from a ds = foldl (\<lambda>a c. a * 10 + (of_char c - 48)) a ds"

definition unsigned_text_value :: "string \<Rightarrow> nat option" where
  "unsigned_text_value s =
     (let ds = (if s \<noteq> [] \<and> last s = newline then butlast s else s)
      in if ds \<noteq> [] \<and> list_all is_digit ds then Some (digits_value_from 0 ds) else None)"

definition decimal_text_value :: "string \<Rightarrow> int option" where
  "decimal_text_value s =
     (case s of
        [] \<Rightarrow> None
      | c # t \<Rightarrow>
          if c = CHR ''-'' then map_option (\<lambda>v. - int v) (unsigned_text_value t)
          else if c = CHR ''+'' then map_option int (unsigned_text_value t)
          else map_option int (unsigned_text_value s))"

subsection \<open>The attribute snapshot\<close>

text \<open>
  The three fields of the specification's attribute snapshot for a located process. The
  owner id always exists. The executable path is absent when the process has no
  memory-map handle, when the path buffer cannot be allocated, when there is no
  executable-file reference, and when path resolution fails. The command-line summary
  is absent when the process has no memory-map handle and when one of its two buffers
  cannot be allocated; it is the empty text when the memory map is gone by the time
  \<^verbatim>\<open>read_cmdline\<close> asks for it; otherwise it is the text \<^verbatim>\<open>read_cmdline\<close> leaves
  in its buffer for the memory map it finds.
\<close>

definition snapshot_owner_id :: "task_struct \<Rightarrow> int" where
  "snapshot_owner_id t = signed_take_bit 31 (int (task_uid t))"

definition snapshot_executable_path :: "kernel \<Rightarrow> task_struct \<Rightarrow> string option" where
  "snapshot_executable_path k t =
     (case mm t of
        None \<Rightarrow> None
      | Some m \<Rightarrow>
          if \<not> kmalloc_exec_path k then None
          else (case exe_file m of
                  None \<Rightarrow> None
                | Some f \<Rightarrow>
                    (case d_path k (f_path f) PATH_MAX of Inl e \<Rightarrow> None | Inr p \<Rightarrow> Some p)))"

definition snapshot_command_line :: "kernel \<Rightarrow> task_struct \<Rightarrow> string option" where
  "snapshot_command_line k t =
     (case mm t of
        None \<Rightarrow> None
      | Some m \<Rightarrow>
          if kmalloc_buffer k \<and> kmalloc_cmdline k
          then (case mm_again t of
                  None \<Rightarrow> Some []
                | Some m2 \<Rightarrow>
                    Some (take (PAGE_SIZE k - 1)
                      (fst (snd (read_cmdline (Some (t\<lparr>mm := Some m2\<rparr>))
                                  (Some (uninitialised k)) (int (PAGE_SIZE k) - 1))))))
          else None)"

text \<open>The four-line report, with \<open>Unknown\<close> for an absent field.\<close>

definition four_lines :: "int \<Rightarrow> int \<Rightarrow> string option \<Rightarrow> string option \<Rightarrow> string" where
  "four_lines pid owner path summary =
     ''PID: '' @ show_int pid @ [newline]
     @ ''UID: '' @ show_int owner @ [newline]
     @ ''Executable: '' @ (case path of None \<Rightarrow> ''Unknown'' | Some p \<Rightarrow> p) @ [newline]
     @ ''Command line: '' @ (case summary of None \<Rightarrow> ''Unknown'' | Some c \<Rightarrow> c) @ [newline]"

text \<open>The first line of a text: the bytes before its first newline.\<close>

definition first_line :: "string \<Rightarrow> string" where
  "first_line s = takeWhile (\<lambda>c. c \<noteq> newline) s"

subsection \<open>Disciplines on the resource calls\<close>

text \<open>
  The number of memory-map references held after a sequence of calls that starts with
  \<open>n\<close> held; \<open>None\<close> if a reference is given back that is not held.
\<close>

fun mm_refs :: "event list \<Rightarrow> nat \<Rightarrow> nat option" where
  "mm_refs [] n = Some n"
| "mm_refs (GetTaskMm True # es) n = mm_refs es (Suc n)"
| "mm_refs (MmPut # es) n = (if n = 0 then None else mm_refs es (n - 1))"
| "mm_refs (e # es) n = mm_refs es n"

text \<open>
  Whether the memory-map lock is held after a sequence of calls; \<open>None\<close> if it is taken
  while held or released while not held.
\<close>

fun mmap_lock :: "event list \<Rightarrow> bool \<Rightarrow> bool option" where
  "mmap_lock [] held = Some held"
| "mmap_lock (DownRead # es) held = (if held then None else mmap_lock es True)"
| "mmap_lock (UpRead # es) held = (if held then mmap_lock es False else None)"
| "mmap_lock (e # es) held = mmap_lock es held"

text \<open>
  Strict nesting. The three kinds of resource, what a call takes and what it gives
  back. A sequence is nested from a stack of held resources when every release gives
  back the resource taken last, the table guard is taken with nothing held, a
  memory-map handle is taken under the table guard, the memory-map lock is taken right
  after a handle, and nothing is held at the end.
\<close>

datatype resource = TableGuard | MmHandle | MmapLock

fun acquires :: "event \<Rightarrow> resource option" where
  "acquires RcuReadLock = Some TableGuard"
| "acquires (GetTaskMm True) = Some MmHandle"
| "acquires DownRead = Some MmapLock"
| "acquires e = None"

fun releases :: "event \<Rightarrow> resource option" where
  "releases RcuReadUnlock = Some TableGuard"
| "releases MmPut = Some MmHandle"
| "releases UpRead = Some MmapLock"
| "releases e = None"

fun may_take :: "resource \<Rightarrow> resource list \<Rightarrow> bool" where
  "may_take TableGuard held = (held = [])"
| "may_take MmHandle held = (TableGuard \<in> set held)"
| "may_take MmapLock held = (case held of h # hs \<Rightarrow> h = MmHandle | [] \<Rightarrow> False)"

fun nested :: "event list \<Rightarrow> resource list \<Rightarrow> bool" where
  "nested [] held = (held = [])"
| "nested (e # es) held =
     (case acquires e of
        Some r \<Rightarrow> may_take r held \<and> nested es (r # held)
      | None \<Rightarrow>
          (case releases e of
             Some r \<Rightarrow> (case held of h # hs \<Rightarrow> h = r \<and> nested es hs | [] \<Rightarrow> False)
           | None \<Rightarrow> nested es held))"

text \<open>
  No allocation that may block (\<^verbatim>\<open>GFP_KERNEL\<close>) is requested while the table guard is
  held; \<open>held\<close> says whether the guard is held at the start.
\<close>

fun allocations_outside_guard :: "event list \<Rightarrow> bool \<Rightarrow> bool" where
  "allocations_outside_guard [] held = True"
| "allocations_outside_guard (RcuReadLock # es) held = allocations_outside_guard es True"
| "allocations_outside_guard (RcuReadUnlock # es) held = allocations_outside_guard es False"
| "allocations_outside_guard (Kmalloc n GFP_KERNEL ok # es) held =
     (\<not> held \<and> allocations_outside_guard es held)"
| "allocations_outside_guard (e # es) held = allocations_outside_guard es held"

section \<open>A concrete kernel\<close>

text \<open>
  Six processes: process 1 with an executable and an eleven-byte argument region,
  process 2 without a memory map (a kernel thread), process 3 with a 5000-byte
  argument region and no executable-file reference, process 4 like process 1 but
  exiting while it is read (its memory map is gone at the second lookup), process 5
  whose executable has a newline in its name, and process 6 without an executable-file
  reference, exiting while it is read. Every allocation is served and \<^verbatim>\<open>d_path\<close>
  resolves any path that fits the buffer.
\<close>

definition init_mm :: mm_struct where
  "init_mm =
     \<lparr>arg_start = 140737488350000, arg_end = 140737488350011,
      exe_file = Some \<lparr>f_path = ''/sbin/init''\<rparr>\<rparr>"

definition init_task :: task_struct where
  "init_task = \<lparr>task_uid = 0, mm = Some init_mm, mm_again = Some init_mm\<rparr>"

definition kthreadd_task :: task_struct where
  "kthreadd_task = \<lparr>task_uid = 0, mm = None, mm_again = None\<rparr>"

definition long_args_mm :: mm_struct where
  "long_args_mm = \<lparr>arg_start = 140737488340000, arg_end = 140737488345000, exe_file = None\<rparr>"

definition long_args_task :: task_struct where
  "long_args_task = \<lparr>task_uid = 1000, mm = Some long_args_mm, mm_again = Some long_args_mm\<rparr>"

definition exiting_task :: task_struct where
  "exiting_task = \<lparr>task_uid = 0, mm = Some init_mm, mm_again = None\<rparr>"

definition newline_path_mm :: mm_struct where
  "newline_path_mm =
     \<lparr>arg_start = 0, arg_end = 0,
      exe_file = Some \<lparr>f_path = ''/tmp/a'' @ [newline] @ ''b''\<rparr>\<rparr>"

definition newline_path_task :: task_struct where
  "newline_path_task =
     \<lparr>task_uid = 1000, mm = Some newline_path_mm, mm_again = Some newline_path_mm\<rparr>"

definition reaped_task :: task_struct where
  "reaped_task = \<lparr>task_uid = 1000, mm = Some long_args_mm, mm_again = None\<rparr>"

definition example_kernel :: kernel where
  "example_kernel =
     \<lparr>PAGE_SIZE = 4096,
      pid_task = (\<lambda>p. if p = 1 then Some init_task
                      else if p = 2 then Some kthreadd_task
                      else if p = 3 then Some long_args_task
                      else if p = 4 then Some exiting_task
                      else if p = 5 then Some newline_path_task
                      else if p = 6 then Some reaped_task
                      else None),
      d_path = (\<lambda>p n. if length p < n then Inr p else Inl ENAMETOOLONG),
      kmalloc_exec_path = True, kmalloc_buffer = True, kmalloc_cmdline = True,
      uninitialised = []\<rparr>"

section \<open>Concrete payloads\<close>

text \<open>
  Payloads for the write handler: a ten-digit number beyond the 32-bit range, a negative
  number, the number 2 to the power 31, the empty payload, a one-digit number followed
  by a newline, 32 digits, a payload whose copy faults, a payload with a letter in it,
  letters whose copy faults,
  the number 2 to the power 63, the number 2 to the power 32, a number followed by a
  NUL byte and two letters, and a number that is 2 modulo 2 to the power 32.
\<close>

definition wide_pid_buffer :: user_buffer where
  "wide_pid_buffer = \<lparr>ubytes = ''4294967297'', ufault = False\<rparr>"

definition negative_pid_buffer :: user_buffer where
  "negative_pid_buffer = \<lparr>ubytes = ''-5'', ufault = False\<rparr>"

definition int_min_buffer :: user_buffer where
  "int_min_buffer = \<lparr>ubytes = ''2147483648'', ufault = False\<rparr>"

definition empty_buffer :: user_buffer where
  "empty_buffer = \<lparr>ubytes = [], ufault = False\<rparr>"

definition small_pid_buffer :: user_buffer where
  "small_pid_buffer = \<lparr>ubytes = ''1'' @ [newline], ufault = False\<rparr>"

definition oversized_buffer :: user_buffer where
  "oversized_buffer = \<lparr>ubytes = replicate 32 (CHR ''1''), ufault = False\<rparr>"

definition faulting_buffer :: user_buffer where
  "faulting_buffer = \<lparr>ubytes = ''42'', ufault = True\<rparr>"

definition garbled_buffer :: user_buffer where
  "garbled_buffer = \<lparr>ubytes = ''12a'', ufault = False\<rparr>"

definition beyond_long_buffer :: user_buffer where
  "beyond_long_buffer = \<lparr>ubytes = ''9223372036854775808'', ufault = False\<rparr>"

definition faulting_letters_buffer :: user_buffer where
  "faulting_letters_buffer = \<lparr>ubytes = ''abc'', ufault = True\<rparr>"

definition zero_wrap_buffer :: user_buffer where
  "zero_wrap_buffer = \<lparr>ubytes = ''4294967296'', ufault = False\<rparr>"

definition nul_payload_buffer :: user_buffer where
  "nul_payload_buffer = \<lparr>ubytes = ''12'' @ [CHR 0x00] @ ''ab'', ufault = False\<rparr>"

definition wrapped_pid_buffer :: user_buffer where
  "wrapped_pid_buffer = \<lparr>ubytes = ''4294967298'', ufault = False\<rparr>"

text \<open>
  A process with an empty argument region, and the concrete kernel with every allocation
  refused.
\<close>

definition no_args_mm :: mm_struct where
  "no_args_mm = \<lparr>arg_start = 0, arg_end = 0, exe_file = None\<rparr>"

definition no_args_task :: task_struct where
  "no_args_task = \<lparr>task_uid = 0, mm = Some no_args_mm, mm_again = Some no_args_mm\<rparr>"

definition starved_kernel :: kernel where
  "starved_kernel =
     example_kernel\<lparr>kmalloc_exec_path := False, kmalloc_buffer := False, kmalloc_cmdline := False\<rparr>"

section \<open>Printing decimal numbers\<close>

lemma show_nat_digit: "n < 10 \<Longrightarrow> show_nat n = [digit_char n]"
  by (simp add: show_nat.simps)

lemma show_nat_step: "10 \<le> n \<Longrightarrow> show_nat n = show_nat (n div 10) @ [digit_char (n mod 10)]"
  by (subst show_nat.simps) simp

lemmas show_eval = show_int_def show_nat_digit show_nat_step digit_char_def

lemma lt10: "(d::nat) < 10 \<Longrightarrow> d = 0 \<or> d = 1 \<or> d = 2 \<or> d = 3 \<or> d = 4 \<or> d = 5 \<or> d = 6 \<or> d = 7 \<or> d = 8 \<or> d = 9"
  by arith

lemma of_char_digit_char: "d < 10 \<Longrightarrow> (of_char (digit_char d) :: nat) = 48 + d"
  using lt10[of d] by (auto simp: digit_char_def)

section \<open>The parser accepts decimal-integer text, and only that\<close>

subsection \<open>The digit loop\<close>

lemma overflow_test_iff:
  fixes res d :: nat
  assumes "d < 10"
  shows "((ULLONG_MAX - d) div 10 < res) = (2 ^ 64 \<le> res * 10 + d)"
  using assms unfolding ULLONG_MAX_def by simp arith

lemma overflow_needs_top_bits:
  fixes res d :: nat
  assumes "d < 10" "2 ^ 64 \<le> res * 10 + d"
  shows "2 ^ 60 \<le> res"
  using assms by simp

lemma digit_val_digit: "is_digit c \<Longrightarrow> digit_val c = Some (of_char c - 48)"
  by (simp add: is_digit_def digit_val_def Let_def)

lemma digit_val_nondigit:
  "\<not> is_digit c \<Longrightarrow> digit_val c = None \<or> (\<exists>v. digit_val c = Some v \<and> 10 \<le> v)"
  by (auto simp: is_digit_def digit_val_def Let_def)

lemma parse_integer_stop:
  "rest = [] \<or> \<not> is_digit (hd rest) \<Longrightarrow> parse_integer rest 10 res rv ovf = (res, rv, ovf)"
proof (cases rest)
  case Nil
  then show ?thesis by simp
next
  case (Cons c t)
  assume "rest = [] \<or> \<not> is_digit (hd rest)"
  with Cons have "\<not> is_digit c" by simp
  from digit_val_nondigit [OF this] Cons show ?thesis by auto
qed

lemma digits_value_from_mono: "a \<le> digits_value_from a ds"
proof (induction ds arbitrary: a)
  case Nil
  show ?case by (simp add: digits_value_from_def)
next
  case (Cons c ds)
  have "a \<le> a * 10 + (of_char c - 48)" by simp
  also have "\<dots> \<le> digits_value_from (a * 10 + (of_char c - 48)) ds" by (rule Cons.IH)
  finally show ?case by (simp add: digits_value_from_def)
qed

lemma digits_value_from_Cons:
  "digits_value_from a (c # ds) = digits_value_from (a * 10 + (of_char c - 48)) ds"
  by (simp add: digits_value_from_def)

lemma parse_integer_sticky: "snd (snd (parse_integer s b r rv True))"
  by (induction s arbitrary: r rv) (auto split: option.splits)

lemma parse_integer_step:
  assumes "is_digit c"
  shows "parse_integer (c # s) 10 res rv ovf =
           parse_integer s 10 ((res * 10 + (of_char c - 48)) mod 2 ^ 64) (rv + 1)
             (ovf \<or> 2 ^ 64 \<le> res * 10 + (of_char c - 48))"
proof -
  let ?d = "of_char c - 48 :: nat"
  have d10: "?d < 10" using assms by (auto simp: is_digit_def)
  have "(2 ^ 60 \<le> res \<and> (ULLONG_MAX - ?d) div 10 < res) = (2 ^ 64 \<le> res * 10 + ?d)"
    using overflow_needs_top_bits [OF d10, of res] by (auto simp: overflow_test_iff [OF d10])
  then show ?thesis
    using digit_val_digit [OF assms] d10 by simp
qed

lemma parse_integer_exact:
  "list_all is_digit ds \<Longrightarrow> rest = [] \<or> \<not> is_digit (hd rest) \<Longrightarrow>
   digits_value_from res ds < 2 ^ 64 \<Longrightarrow>
   parse_integer (ds @ rest) 10 res rv ovf = (digits_value_from res ds, rv + length ds, ovf)"
proof (induction ds arbitrary: res rv ovf)
  case Nil
  then show ?case by (simp add: parse_integer_stop digits_value_from_def)
next
  case (Cons c ds)
  let ?r = "res * 10 + (of_char c - 48 :: nat)"
  from Cons.prems have dig: "is_digit c" and rest: "list_all is_digit ds" by simp_all
  have small: "digits_value_from ?r ds < 2 ^ 64"
    using Cons.prems(3) by (simp add: digits_value_from_Cons)
  have r_small: "?r < 2 ^ 64"
    using digits_value_from_mono [of ?r ds] small by linarith
  have "parse_integer ((c # ds) @ rest) 10 res rv ovf = parse_integer (ds @ rest) 10 ?r (rv + 1) ovf"
    using r_small by (simp add: parse_integer_step [OF dig] del: parse_integer.simps)
  also have "\<dots> = (digits_value_from ?r ds, rv + 1 + length ds, ovf)"
    by (rule Cons.IH [OF rest Cons.prems(2) small])
  finally show ?case by (simp add: digits_value_from_Cons)
qed

lemma parse_integer_overflow:
  "list_all is_digit ds \<Longrightarrow> res < 2 ^ 64 \<Longrightarrow> 2 ^ 64 \<le> digits_value_from res ds \<Longrightarrow>
   snd (snd (parse_integer (ds @ rest) 10 res rv ovf))"
proof (induction ds arbitrary: res rv ovf)
  case Nil
  then show ?case by (simp add: digits_value_from_def)
next
  case (Cons c ds)
  let ?r = "res * 10 + (of_char c - 48 :: nat)"
  from Cons.prems have dig: "is_digit c" and rest: "list_all is_digit ds" by simp_all
  have big: "2 ^ 64 \<le> digits_value_from ?r ds"
    using Cons.prems(3) by (simp add: digits_value_from_Cons)
  show ?case
  proof (cases "?r < 2 ^ 64")
    case True
    have "parse_integer ((c # ds) @ rest) 10 res rv ovf = parse_integer (ds @ rest) 10 ?r (rv + 1) ovf"
      using True by (simp add: parse_integer_step [OF dig] del: parse_integer.simps)
    then show ?thesis using Cons.IH [OF rest True big] by simp
  next
    case False
    have "parse_integer ((c # ds) @ rest) 10 res rv ovf
            = parse_integer (ds @ rest) 10 (?r mod 2 ^ 64) (rv + 1) True"
      using False by (simp add: parse_integer_step [OF dig] del: parse_integer.simps)
    then show ?thesis by (simp add: parse_integer_sticky)
  qed
qed

subsection \<open>Unsigned text\<close>

lemma newline_not_digit: "\<not> is_digit newline"
  by (simp add: is_digit_def newline_def)

lemma digits_takeWhile: "list_all is_digit (takeWhile is_digit s)"
  by (simp add: list_all_iff) (meson set_takeWhileD)

lemma stop_dropWhile: "dropWhile is_digit s = [] \<or> \<not> is_digit (hd (dropWhile is_digit s))"
  using hd_dropWhile [of is_digit s] by blast

lemma kstrtoull_raw_split:
  "kstrtoull_raw s 10 =
     (if 2 ^ 64 \<le> digits_value_from 0 (takeWhile is_digit s) then Inl ERANGE
      else if takeWhile is_digit s = [] then Inl EINVAL
      else if dropWhile is_digit s = [] \<or> dropWhile is_digit s = [newline]
           then Inr (digits_value_from 0 (takeWhile is_digit s))
      else Inl EINVAL)"
proof -
  let ?ds = "takeWhile is_digit s" and ?rest = "dropWhile is_digit s"
  let ?V = "digits_value_from 0 ?ds"
  have s: "s = ?ds @ ?rest" by simp
  show ?thesis
  proof (cases "2 ^ 64 \<le> ?V")
    case True
    have "snd (snd (parse_integer (?ds @ ?rest) 10 0 0 False))"
      by (rule parse_integer_overflow [OF digits_takeWhile _ True]) simp
    then have "snd (snd (parse_integer s 10 0 0 False))" by simp
    then obtain r n where "parse_integer s 10 0 0 False = (r, n, True)"
      by (cases "parse_integer s 10 0 0 False") auto
    then show ?thesis using True
      by (simp add: kstrtoull_raw_def)
  next
    case False
    then have small: "?V < 2 ^ 64" by simp
    have "parse_integer (?ds @ ?rest) 10 0 0 False = (?V, 0 + length ?ds, False)"
      by (rule parse_integer_exact [OF digits_takeWhile stop_dropWhile small])
    then have p: "parse_integer s 10 0 0 False = (?V, length ?ds, False)" by simp
    have d: "drop (length ?ds) s = ?rest"
      by (metis append_eq_conv_conj s)
    show ?thesis
    proof (cases ?rest)
      case Nil
      then show ?thesis using False
        by (simp add: kstrtoull_raw_def p d Let_def del: dropWhile_eq_Nil_conv)
    next
      case (Cons c t)
      then show ?thesis using False
        by (simp add: kstrtoull_raw_def p d Let_def del: dropWhile_eq_Nil_conv)
    qed
  qed
qed

lemma unsigned_text_value_split:
  "unsigned_text_value s =
     (if takeWhile is_digit s \<noteq> [] \<and> (dropWhile is_digit s = [] \<or> dropWhile is_digit s = [newline])
      then Some (digits_value_from 0 (takeWhile is_digit s)) else None)"
proof -
  let ?ds = "takeWhile is_digit s" and ?rest = "dropWhile is_digit s"
  have s: "s = ?ds @ ?rest" by simp
  show ?thesis
  proof (cases "s \<noteq> [] \<and> last s = newline")
    case True
    then have sb: "s = butlast s @ [newline]" by (metis append_butlast_last_id)
    have u: "unsigned_text_value s =
               (if butlast s \<noteq> [] \<and> list_all is_digit (butlast s)
                then Some (digits_value_from 0 (butlast s)) else None)"
      using True by (simp add: unsigned_text_value_def)
    show ?thesis
    proof (cases "list_all is_digit (butlast s)")
      case True
      then have "takeWhile is_digit (butlast s @ [newline]) = butlast s"
        and "dropWhile is_digit (butlast s @ [newline]) = [newline]"
        by (simp_all add: list_all_iff newline_not_digit takeWhile_append2 dropWhile_append2)
      then have "?ds = butlast s" and "?rest = [newline]" using sb by simp_all
      then show ?thesis using u True by simp
    next
      case False
      have "?rest \<noteq> []"
        using True newline_not_digit
        by (metis dropWhile_eq_Nil_conv last_in_set)
      moreover have "?rest \<noteq> [newline]"
      proof
        assume r: "?rest = [newline]"
        then have "s = ?ds @ [newline]" using s by simp
        then have "butlast s = ?ds" by (metis butlast_snoc)
        then show False using False digits_takeWhile [of s] by simp
      qed
      ultimately show ?thesis using u False by simp
    qed
  next
    case False
    then have u: "unsigned_text_value s =
               (if s \<noteq> [] \<and> list_all is_digit s then Some (digits_value_from 0 s) else None)"
      by (auto simp: unsigned_text_value_def)
    have nr: "?rest \<noteq> [newline]"
    proof
      assume r: "?rest = [newline]"
      then have "s = ?ds @ [newline]" using s by simp
      then have "s \<noteq> [] \<and> last s = newline" by (metis last_snoc snoc_eq_iff_butlast)
      then show False using False by simp
    qed
    show ?thesis
    proof (cases "list_all is_digit s")
      case True
      then have ds: "takeWhile is_digit s = s" and rest: "dropWhile is_digit s = []"
        by (simp_all add: list_all_iff)
      show ?thesis unfolding u ds rest using True by simp
    next
      case False
      then have "?rest \<noteq> []" by (simp add: list_all_iff)
      then show ?thesis using u False nr by simp
    qed
  qed
qed

lemma kstrtoull_raw_accepts:
  "unsigned_text_value s = Some v \<Longrightarrow>
   kstrtoull_raw s 10 = (if v < 2 ^ 64 then Inr v else Inl ERANGE)"
  by (auto simp: unsigned_text_value_split kstrtoull_raw_split split: if_splits)

lemma kstrtoull_raw_rejects:
  "unsigned_text_value s = None \<Longrightarrow> \<exists>e. kstrtoull_raw s 10 = Inl e"
  by (auto simp: unsigned_text_value_split kstrtoull_raw_split split: if_splits)

subsection \<open>Signed text\<close>

lemma long_of_small: "u < 2 ^ 63 \<Longrightarrow> signed_take_bit 63 (int u) = int u"
  by (rule signed_take_bit_int_eq_self) simp_all

lemma long_of_large: "2 ^ 63 \<le> u \<Longrightarrow> u < 2 ^ 64 \<Longrightarrow> signed_take_bit 63 (int u) < 0"
  using signed_take_bit_int_less_eq [of 63 "int u"]
  by (simp del: signed_take_bit_negative_iff)

lemma long_of_neg_small: "u \<le> 2 ^ 63 \<Longrightarrow> signed_take_bit 63 (- int u) = - int u"
  by (rule signed_take_bit_int_eq_self) simp_all

lemma long_of_neg_large: "2 ^ 63 < u \<Longrightarrow> u < 2 ^ 64 \<Longrightarrow> 0 < signed_take_bit 63 (- int u)"
  using signed_take_bit_int_greater_eq [of "- int u" 63] by simp

lemma kstrtoll_unsigned:
  "unsigned_text_value s = Some u \<Longrightarrow>
   (case kstrtoull_raw s 10 of
      Inl e \<Rightarrow> Inl e
    | Inr tmp \<Rightarrow> if signed_take_bit 63 (int tmp) < 0 then Inl ERANGE
                 else Inr (signed_take_bit 63 (int tmp)))
   = (if int u < 2 ^ 63 then Inr (int u) else Inl ERANGE)"
proof -
  assume a: "unsigned_text_value s = Some u"
  consider "u < 2 ^ 63" | "2 ^ 63 \<le> u" "u < 2 ^ 64" | "2 ^ 64 \<le> u" by linarith
  then show ?thesis
  proof cases
    case 1
    then show ?thesis by (simp add: kstrtoull_raw_accepts [OF a] long_of_small)
  next
    case 2
    then show ?thesis
      by (simp add: kstrtoull_raw_accepts [OF a] long_of_large del: signed_take_bit_negative_iff)
  next
    case 3
    then show ?thesis by (simp add: kstrtoull_raw_accepts [OF a])
  qed
qed

lemma kstrtoll_negated:
  "unsigned_text_value s = Some u \<Longrightarrow>
   (case kstrtoull_raw s 10 of
      Inl e \<Rightarrow> Inl e
    | Inr tmp \<Rightarrow> if signed_take_bit 63 (- int tmp) > 0 then Inl ERANGE
                 else Inr (signed_take_bit 63 (- int tmp)))
   = (if - (2 ^ 63) \<le> - int u then Inr (- int u) else Inl ERANGE)"
proof -
  assume a: "unsigned_text_value s = Some u"
  consider "u \<le> 2 ^ 63" | "2 ^ 63 < u" "u < 2 ^ 64" | "2 ^ 64 \<le> u" by linarith
  then show ?thesis
  proof cases
    case 1
    then show ?thesis by (simp add: kstrtoull_raw_accepts [OF a] long_of_neg_small)
  next
    case 2
    then show ?thesis by (simp add: kstrtoull_raw_accepts [OF a] long_of_neg_large)
  next
    case 3
    then show ?thesis by (simp add: kstrtoull_raw_accepts [OF a])
  qed
qed

lemma kstrtol_accepts:
  assumes "decimal_text_value s = Some v"
  shows "kstrtol s 10 = (if - (2 ^ 63) \<le> v \<and> v < 2 ^ 63 then Inr v else Inl ERANGE)"
proof (cases s)
  case Nil
  with assms show ?thesis by (simp add: decimal_text_value_def)
next
  case (Cons c t)
  show ?thesis
  proof (cases "c = CHR ''-''")
    case True
    with assms Cons obtain u where u: "unsigned_text_value t = Some u" and v: "v = - int u"
      by (auto simp: decimal_text_value_def)
    show ?thesis
      using kstrtoll_negated [OF u] True Cons v by (simp add: kstrtol_def kstrtoll_def)
  next
    case False
    show ?thesis
    proof (cases "c = CHR ''+''")
      case True
      with assms Cons obtain u where u: "unsigned_text_value t = Some u" and v: "v = int u"
        by (auto simp: decimal_text_value_def)
      show ?thesis
        using kstrtoll_unsigned [OF u] True Cons v
        by (simp add: kstrtol_def kstrtoll_def kstrtoull_def)
    next
      case plus: False
      with assms Cons False obtain u where u: "unsigned_text_value s = Some u" and v: "v = int u"
        by (auto simp: decimal_text_value_def)
      show ?thesis
        using kstrtoll_unsigned [OF u] False plus Cons v
        by (simp add: kstrtol_def kstrtoll_def kstrtoull_def)
    qed
  qed
qed

lemma kstrtol_rejects:
  assumes "decimal_text_value s = None"
  shows "\<exists>e. kstrtol s 10 = Inl e"
proof (cases s)
  case Nil
  have "unsigned_text_value [] = None" by (simp add: unsigned_text_value_def)
  from kstrtoull_raw_rejects [OF this] Nil show ?thesis
    by (auto simp: kstrtol_def kstrtoll_def kstrtoull_def)
next
  case (Cons c t)
  show ?thesis
  proof (cases "c = CHR ''-'' \<or> c = CHR ''+''")
    case True
    with assms Cons have "unsigned_text_value t = None"
      by (auto simp: decimal_text_value_def split: if_splits)
    from kstrtoull_raw_rejects [OF this] True Cons show ?thesis
      by (auto simp: kstrtol_def kstrtoll_def kstrtoull_def)
  next
    case False
    with assms Cons have "unsigned_text_value s = None"
      by (auto simp: decimal_text_value_def split: if_splits)
    from kstrtoull_raw_rejects [OF this] False Cons show ?thesis
      by (auto simp: kstrtol_def kstrtoll_def kstrtoull_def)
  qed
qed

section \<open>The write handler, in terms of the text written\<close>

text \<open>
  Every outcome of a write, read off the text of the payload: the bytes before the first
  NUL byte are what the parser sees.
\<close>

lemma process_info_write_text:
  "process_info_write old buf =
     (if 31 < length (ubytes buf) then (Inl EINVAL, old)
      else if ufault buf \<and> ubytes buf \<noteq> [] then (Inl EFAULT, old)
      else (case decimal_text_value (c_string (ubytes buf)) of
              None \<Rightarrow> (Inl EINVAL, old)
            | Some v \<Rightarrow>
                if - (2 ^ 63) \<le> v \<and> v < 2 ^ 63
                then (Inr (length (ubytes buf)), signed_take_bit 31 v)
                else (Inl EINVAL, old)))"
proof (cases "decimal_text_value (c_string (ubytes buf))")
  case None
  from kstrtol_rejects [OF this] obtain e where "kstrtol (c_string (ubytes buf)) 10 = Inl e" ..
  with None show ?thesis
    by (simp add: process_info_write_def copy_from_user_def Let_def)
next
  case (Some v)
  from kstrtol_accepts [OF this] Some show ?thesis
    by (simp add: process_info_write_def copy_from_user_def Let_def)
qed

lemmas kstrtol_eval = kstrtol_def kstrtoll_def kstrtoull_def kstrtoull_raw_def digit_val_def
  ULLONG_MAX_def newline_def

lemmas write_eval = process_info_write_def copy_from_user_def c_string_def kstrtol_eval

lemmas text_eval = decimal_text_value_def unsigned_text_value_def digits_value_from_def
  is_digit_def c_string_def newline_def

subsection \<open>Outcomes of a write\<close>

text \<open>
  Claim C2, as stated, at the payload \<open>4294967297\<close> written over the initial selection:
  the write succeeds and the parser yields 4294967297, but the selection does not
  become that value.
\<close>

theorem write_selection_counterexample:
  "fst (process_info_write (- 1) wide_pid_buffer) = Inr 10
   \<and> kstrtol (c_string (ubytes wide_pid_buffer)) 10 = Inr 4294967297
   \<and> snd (process_info_write (- 1) wide_pid_buffer) \<noteq> 4294967297"
  by (simp add: write_eval wide_pid_buffer_def)

text \<open>
  Claim C2, amended. For every write of a byte payload: a payload longer than 31 bytes
  fails with an invalid-argument error; a failure to copy a payload of at most 31 bytes
  from the caller fails with an access-fault error; a copied payload whose text is not
  a well-formed decimal integer fails with an invalid-argument error; a copied payload
  whose text denotes a value of the signed 64-bit range succeeds, returns the number of
  bytes of the payload, and the value narrowed to the signed 32-bit type of the
  selection becomes the current selection; a copied payload whose text denotes a value
  outside the signed 64-bit range fails with an invalid-argument error; and every write
  that succeeds returns the number of bytes of its payload and stores the narrowed
  value of its text. A write that fails leaves the selection as it was.
\<close>

theorem write_outcomes:
  "(31 < length (ubytes buf) \<longrightarrow> process_info_write old buf = (Inl EINVAL, old))
   \<and> (length (ubytes buf) \<le> 31 \<and> copy_from_user buf = None
        \<longrightarrow> process_info_write old buf = (Inl EFAULT, old))
   \<and> (length (ubytes buf) \<le> 31 \<and> copy_from_user buf \<noteq> None
        \<and> decimal_text_value (c_string (ubytes buf)) = None
        \<longrightarrow> process_info_write old buf = (Inl EINVAL, old))
   \<and> (length (ubytes buf) \<le> 31 \<and> copy_from_user buf \<noteq> None
        \<and> decimal_text_value (c_string (ubytes buf)) = Some v \<and> - (2 ^ 63) \<le> v \<and> v < 2 ^ 63
        \<longrightarrow> process_info_write old buf = (Inr (length (ubytes buf)), signed_take_bit 31 v))
   \<and> (length (ubytes buf) \<le> 31 \<and> copy_from_user buf \<noteq> None
        \<and> decimal_text_value (c_string (ubytes buf)) = Some v \<and> (v < - (2 ^ 63) \<or> 2 ^ 63 \<le> v)
        \<longrightarrow> process_info_write old buf = (Inl EINVAL, old))
   \<and> (fst (process_info_write old buf) = Inr n
        \<longrightarrow> n = length (ubytes buf)
            \<and> (\<exists>w. decimal_text_value (c_string (ubytes buf)) = Some w
                    \<and> snd (process_info_write old buf) = signed_take_bit 31 w))"
  by (auto simp: process_info_write_text copy_from_user_def split: option.splits if_splits)

text \<open>The cases of \<open>write_outcomes\<close> at concrete payloads.\<close>

theorem write_outcomes_witness:
  "process_info_write 7 oversized_buffer = (Inl EINVAL, 7)
   \<and> process_info_write 7 faulting_buffer = (Inl EFAULT, 7)
   \<and> process_info_write 7 garbled_buffer = (Inl EINVAL, 7)
   \<and> process_info_write 7 small_pid_buffer = (Inr 2, 1)
   \<and> process_info_write 7 beyond_long_buffer = (Inl EINVAL, 7)
   \<and> (\<exists>w. decimal_text_value (c_string (ubytes small_pid_buffer)) = Some w
           \<and> snd (process_info_write 7 small_pid_buffer) = signed_take_bit 31 w)"
proof -
  have a: "31 < length (ubytes oversized_buffer)"
    by (simp add: oversized_buffer_def)
  have b: "length (ubytes faulting_buffer) \<le> 31 \<and> copy_from_user faulting_buffer = None"
    by (simp add: faulting_buffer_def copy_from_user_def)
  have c: "length (ubytes garbled_buffer) \<le> 31 \<and> copy_from_user garbled_buffer \<noteq> None
           \<and> decimal_text_value (c_string (ubytes garbled_buffer)) = None"
    by (simp add: garbled_buffer_def copy_from_user_def text_eval)
  have d: "length (ubytes small_pid_buffer) \<le> 31 \<and> copy_from_user small_pid_buffer \<noteq> None
           \<and> decimal_text_value (c_string (ubytes small_pid_buffer)) = Some 1
           \<and> - (2 ^ 63) \<le> (1::int) \<and> (1::int) < 2 ^ 63"
    by (simp add: small_pid_buffer_def copy_from_user_def text_eval)
  have e: "fst (process_info_write 7 small_pid_buffer) = Inr 2"
    by (simp add: write_eval small_pid_buffer_def)
  have 1: "process_info_write 7 oversized_buffer = (Inl EINVAL, 7)"
    using a write_outcomes [of oversized_buffer 7 1 2] by blast
  have 2: "process_info_write 7 faulting_buffer = (Inl EFAULT, 7)"
    using b write_outcomes [of faulting_buffer 7 1 2] by blast
  have 3: "process_info_write 7 garbled_buffer = (Inl EINVAL, 7)"
    using c write_outcomes [of garbled_buffer 7 1 2] by blast
  have 4: "process_info_write 7 small_pid_buffer
             = (Inr (length (ubytes small_pid_buffer)), signed_take_bit 31 1)"
    using d write_outcomes [of small_pid_buffer 7 1 2] by blast
  have 5: "\<exists>w. decimal_text_value (c_string (ubytes small_pid_buffer)) = Some w
             \<and> snd (process_info_write 7 small_pid_buffer) = signed_take_bit 31 w"
    using e write_outcomes [of small_pid_buffer 7 1 2] by blast
  have 6: "(Inr (length (ubytes small_pid_buffer)), signed_take_bit 31 (1::int))
             = (Inr 2 :: errno + nat, 1::int)"
    by (simp add: small_pid_buffer_def)
  have f: "length (ubytes beyond_long_buffer) \<le> 31 \<and> copy_from_user beyond_long_buffer \<noteq> None
           \<and> decimal_text_value (c_string (ubytes beyond_long_buffer)) = Some 9223372036854775808
           \<and> ((9223372036854775808::int) < - (2 ^ 63) \<or> 2 ^ 63 \<le> (9223372036854775808::int))"
    by (simp add: beyond_long_buffer_def copy_from_user_def text_eval)
  have 7: "process_info_write 7 beyond_long_buffer = (Inl EINVAL, 7)"
    using f write_outcomes [of beyond_long_buffer 7 9223372036854775808 2] by blast
  show ?thesis
    using 1 2 3 4 5 7 unfolding 6 by blast
qed

subsection \<open>Payloads that are not positive numbers\<close>

text \<open>
  Claim C4, as stated, at two payloads written over the selection 7. The payload \<open>-5\<close>
  is a decimal integer that is not positive, yet the write succeeds and the selection
  becomes \<open>-5\<close>. The payload of the five bytes \<open>1\<close>, \<open>2\<close>, NUL, \<open>a\<close>, \<open>b\<close> is
  not numeric, yet the write succeeds, returns 5 and the selection becomes 12: the
  parser reads a C string, which ends at the NUL byte.
\<close>

theorem write_nonpositive_counterexample:
  "decimal_text_value (c_string (ubytes negative_pid_buffer)) = Some (- 5)
   \<and> process_info_write 7 negative_pid_buffer = (Inr 2, - 5)
   \<and> ubytes nul_payload_buffer = [CHR ''1'', CHR ''2'', CHR 0x00, CHR ''a'', CHR ''b'']
   \<and> decimal_text_value (ubytes nul_payload_buffer) = None
   \<and> process_info_write 7 nul_payload_buffer = (Inr 5, 12)"
proof -
  have a: "decimal_text_value (c_string (ubytes negative_pid_buffer)) = Some (- 5)
           \<and> process_info_write 7 negative_pid_buffer = (Inr 2, - 5)"
    by (simp add: write_eval text_eval negative_pid_buffer_def)
  have b: "ubytes nul_payload_buffer = [CHR ''1'', CHR ''2'', CHR 0x00, CHR ''a'', CHR ''b'']"
    by (simp add: nul_payload_buffer_def)
  have c: "decimal_text_value (ubytes nul_payload_buffer) = None"
    by (simp add: text_eval nul_payload_buffer_def)
  have d: "process_info_write 7 nul_payload_buffer = (Inr 5, 12)"
    by (simp add: write_eval nul_payload_buffer_def)
  from a b c d show ?thesis by (simp only: simp_thms)
qed

text \<open>
  Claim C4, amended. For every write whose payload, read as a C string (its bytes before
  the first NUL byte, all of them when there is none), is not a well-formed decimal
  integer (the empty payload included), the write fails and the selection is unchanged
  from its prior value; the error is the invalid-argument error, except that a payload
  of at most 31 bytes whose copy from the caller fails gives the access-fault error.
\<close>

theorem write_rejects_non_numeric:
  assumes "decimal_text_value (c_string (ubytes buf)) = None"
  shows "fst (process_info_write old buf)
           = Inl (if length (ubytes buf) \<le> 31 \<and> copy_from_user buf = None then EFAULT else EINVAL)
         \<and> snd (process_info_write old buf) = old"
  using assms by (simp add: process_info_write_text copy_from_user_def)

text \<open>
  The empty payload, a payload with a letter after its digits, and a payload of letters
  whose copy faults, each written over the selection 7.
\<close>

theorem write_rejects_non_numeric_witness:
  "decimal_text_value (c_string (ubytes empty_buffer)) = None
   \<and> process_info_write 7 empty_buffer = (Inl EINVAL, 7)
   \<and> decimal_text_value (c_string (ubytes garbled_buffer)) = None
   \<and> process_info_write 7 garbled_buffer = (Inl EINVAL, 7)
   \<and> decimal_text_value (c_string (ubytes faulting_letters_buffer)) = None
   \<and> process_info_write 7 faulting_letters_buffer = (Inl EFAULT, 7)"
proof -
  have h1: "decimal_text_value (c_string (ubytes empty_buffer)) = None"
    by (simp add: empty_buffer_def text_eval)
  have h2: "decimal_text_value (c_string (ubytes garbled_buffer)) = None"
    by (simp add: garbled_buffer_def text_eval)
  have h3: "decimal_text_value (c_string (ubytes faulting_letters_buffer)) = None"
    by (simp add: faulting_letters_buffer_def text_eval)
  have w1: "process_info_write 7 empty_buffer = (Inl EINVAL, 7)"
    using write_rejects_non_numeric [OF h1, of 7]
    by (simp add: empty_buffer_def copy_from_user_def prod_eq_iff)
  have w2: "process_info_write 7 garbled_buffer = (Inl EINVAL, 7)"
    using write_rejects_non_numeric [OF h2, of 7]
    by (simp add: garbled_buffer_def copy_from_user_def prod_eq_iff)
  have w3: "process_info_write 7 faulting_letters_buffer = (Inl EFAULT, 7)"
    using write_rejects_non_numeric [OF h3, of 7]
    by (simp add: faulting_letters_buffer_def copy_from_user_def prod_eq_iff)
  from h1 h2 h3 w1 w2 w3 show ?thesis by (simp only: simp_thms)
qed

section \<open>Printing and parsing agree\<close>

text \<open>
  What \<^verbatim>\<open>%d\<close> prints is decimal-integer text that denotes the number printed, so
  different numbers print differently, and the print contains no newline.
\<close>

lemma digit_char_is_digit: "d < 10 \<Longrightarrow> is_digit (digit_char d)"
  by (simp add: is_digit_def of_char_digit_char)

lemma show_nat_digits: "list_all is_digit (show_nat n)"
proof (induction n rule: show_nat.induct)
  case (1 n)
  show ?case
  proof (cases "n < 10")
    case True
    then show ?thesis by (simp add: show_nat_digit digit_char_is_digit)
  next
    case False
    with 1 show ?thesis by (simp add: show_nat_step digit_char_is_digit)
  qed
qed

lemma show_nat_not_empty: "show_nat n \<noteq> []"
  by (cases "n < 10") (simp_all add: show_nat_digit show_nat_step)

lemma digits_value_from_snoc:
  "digits_value_from a (ds @ [c]) = digits_value_from a ds * 10 + (of_char c - 48)"
  by (simp add: digits_value_from_def)

lemma show_nat_value: "digits_value_from 0 (show_nat n) = n"
proof (induction n rule: show_nat.induct)
  case (1 n)
  show ?case
  proof (cases "n < 10")
    case True
    then show ?thesis
      by (simp add: show_nat_digit digits_value_from_def of_char_digit_char)
  next
    case False
    with 1 show ?thesis
      by (simp add: show_nat_step digits_value_from_snoc of_char_digit_char)
  qed
qed

lemma unsigned_text_value_show_nat: "unsigned_text_value (show_nat n) = Some n"
proof -
  have "is_digit (last (show_nat n))"
    using show_nat_digits [of n] show_nat_not_empty [of n]
    by (simp add: list_all_iff)
  then have "last (show_nat n) \<noteq> newline" using newline_not_digit by auto
  then show ?thesis
    by (simp add: unsigned_text_value_def show_nat_digits show_nat_not_empty show_nat_value)
qed

lemma hd_show_nat_digit: "is_digit (hd (show_nat n))"
  using show_nat_digits [of n] show_nat_not_empty [of n]
  by (cases "show_nat n") simp_all

lemma sign_not_digit: "\<not> is_digit (CHR ''-'')" "\<not> is_digit (CHR ''+'')"
  by (simp_all add: is_digit_def)

lemma decimal_text_value_show_int: "decimal_text_value (show_int i) = Some i"
proof (cases "i < 0")
  case True
  then show ?thesis
    by (simp add: show_int_def decimal_text_value_def unsigned_text_value_show_nat)
next
  case False
  obtain c t where ct: "show_nat (nat i) = c # t"
    using show_nat_not_empty [of "nat i"] by (cases "show_nat (nat i)") auto
  with hd_show_nat_digit [of "nat i"] have "is_digit c" by simp
  with sign_not_digit have "c \<noteq> CHR ''-''" "c \<noteq> CHR ''+''" by auto
  with False ct unsigned_text_value_show_nat [of "nat i"] show ?thesis
    by (simp add: show_int_def decimal_text_value_def)
qed

lemma show_int_inj: "show_int a = show_int b \<Longrightarrow> a = b"
  by (metis decimal_text_value_show_int option.inject)

lemma show_int_no_newline: "newline \<notin> set (show_int i)"
proof -
  have "newline \<notin> set (show_nat n)" for n
    using show_nat_digits [of n] newline_not_digit by (auto simp: list_all_iff)
  then show ?thesis by (simp add: show_int_def newline_def)
qed

lemma first_line_append:
  "newline \<notin> set a \<Longrightarrow> first_line (a @ newline # rest) = a"
  by (auto simp: first_line_def takeWhile_tail)

section \<open>The text of a read\<close>

lemmas show_defs = process_info_show_def show_exec_path_def show_cmdline_def read_cmdline_def
  snprintf_def strscpy_def cmdline_length_text_def string_or_unknown_def

lemmas kernel_eval = example_kernel_def init_task_def init_mm_def kthreadd_task_def
  long_args_task_def long_args_mm_def exiting_task_def newline_path_task_def newline_path_mm_def
  reaped_task_def PATH_MAX_def

lemma read_cmdline_length:
  "read_cmdline (Some t) (Some old) n = (r, buffer, ev) \<Longrightarrow> mm t \<noteq> None \<Longrightarrow>
   r = Inr (int (length buffer))"
  by (auto simp: read_cmdline_def Let_def split: option.splits if_splits)

lemma take_min_length: "take (min a (length b)) b = take a b"
  by (simp add: min_def)

lemma read_cmdline_no_mm:
  "mm t = None \<Longrightarrow> read_cmdline (Some t) (Some old) n = (Inl ENOENT, old, [GetTaskMm False])"
  by (simp add: read_cmdline_def)

lemma show_cmdline_snapshot:
  "mm t \<noteq> None \<Longrightarrow> fst (show_cmdline k t) = snapshot_command_line k t"
proof (cases "mm_again t")
  case None
  assume m: "mm t \<noteq> None"
  have "mm (t\<lparr>mm := None\<rparr>) = None" by simp
  from read_cmdline_no_mm [OF this]
  have rc: "read_cmdline (Some (t\<lparr>mm := None\<rparr>)) (Some (uninitialised k))
              (int (PAGE_SIZE k) - 1) = (Inl ENOENT, uninitialised k, [GetTaskMm False])" .
  show ?thesis
    using m None by (auto simp: show_cmdline_def snapshot_command_line_def rc)
next
  case (Some m2)
  assume m: "mm t \<noteq> None"
  let ?t = "t\<lparr>mm := mm_again t\<rparr>"
  obtain r buffer ev where
    rc: "read_cmdline (Some ?t) (Some (uninitialised k)) (int (PAGE_SIZE k) - 1) = (r, buffer, ev)"
    by (cases "read_cmdline (Some ?t) (Some (uninitialised k)) (int (PAGE_SIZE k) - 1)")
  have "mm ?t \<noteq> None" using Some by simp
  from read_cmdline_length [OF rc this] have r: "r = Inr (int (length buffer))" .
  have rc': "read_cmdline (Some (t\<lparr>mm := Some m2\<rparr>)) (Some (uninitialised k))
               (int (PAGE_SIZE k) - 1) = (r, buffer, ev)"
    using rc Some by simp
  show ?thesis
    using m Some
    by (auto simp: show_cmdline_def snapshot_command_line_def rc rc' r Let_def take_min_length)
qed

lemma read_cmdline_same_mm:
  "mm t1 = mm t2 \<Longrightarrow> read_cmdline (Some t1) b n = read_cmdline (Some t2) b n"
  by (cases b) (simp_all add: read_cmdline_def)

lemma show_cmdline_text:
  assumes "kmalloc_buffer k" and "kmalloc_cmdline k" and "mm_again task = Some m"
  shows "fst (show_cmdline k task) =
           Some (take (PAGE_SIZE k - 1)
             (fst (snd (read_cmdline (Some (task\<lparr>mm := Some m\<rparr>)) (Some (uninitialised k))
                         (int (PAGE_SIZE k) - 1)))))"
proof -
  obtain r buffer ev where
    rc: "read_cmdline (Some (task\<lparr>mm := Some m\<rparr>)) (Some (uninitialised k))
           (int (PAGE_SIZE k) - 1) = (r, buffer, ev)"
    by (cases "read_cmdline (Some (task\<lparr>mm := Some m\<rparr>)) (Some (uninitialised k))
                 (int (PAGE_SIZE k) - 1)")
  have "mm (task\<lparr>mm := Some m\<rparr>) \<noteq> None" by simp
  from read_cmdline_length [OF rc this] have r: "r = Inr (int (length buffer))" .
  show ?thesis
    using assms by (auto simp: show_cmdline_def rc r Let_def take_min_length)
qed

lemma show_exec_path_snapshot:
  "mm t = Some m \<Longrightarrow>
   string_or_unknown (fst (show_exec_path k m))
     = (case snapshot_executable_path k t of None \<Rightarrow> ''Unknown'' | Some p \<Rightarrow> p)"
  by (simp add: show_exec_path_def snapshot_executable_path_def string_or_unknown_def
      split: option.splits sum.splits)

text \<open>
  The text printed by one read, for every kernel and every selection: the handler's
  output is the report of the specification on the snapshot of the selected process.
\<close>

lemma process_info_show_seq:
  "seq (process_info_show k pid) =
     (if pid \<le> 0 then ''No valid PID provided'' @ [newline]
      else (case pid_task k pid of
              None \<Rightarrow> ''Process with PID '' @ show_int pid @ '' not found'' @ [newline]
            | Some t \<Rightarrow>
                four_lines pid (snapshot_owner_id t)
                  (snapshot_executable_path k t) (snapshot_command_line k t)))"
proof (cases "pid \<le> 0")
  case True
  then show ?thesis by (simp add: process_info_show_def)
next
  case False
  show ?thesis
  proof (cases "pid_task k pid")
    case None
    with False show ?thesis by (simp add: process_info_show_def)
  next
    case (Some t)
    show ?thesis
    proof (cases "mm t")
      case None
      with False Some show ?thesis
        by (simp add: process_info_show_def four_lines_def snapshot_owner_id_def
            snapshot_executable_path_def snapshot_command_line_def string_or_unknown_def)
    next
      case (Some m)
      then have m: "mm t \<noteq> None" by simp
      obtain e ev1 where e: "show_exec_path k m = (e, ev1)" by (cases "show_exec_path k m")
      obtain c ev2 where c: "show_cmdline k t = (c, ev2)" by (cases "show_cmdline k t")
      from show_exec_path_snapshot [OF Some, of k] e
      have e': "string_or_unknown e
                  = (case snapshot_executable_path k t of None \<Rightarrow> ''Unknown'' | Some p \<Rightarrow> p)"
        by simp
      from show_cmdline_snapshot [OF m, of k] c
      have c': "c = snapshot_command_line k t" by simp
      have c'': "string_or_unknown c
                  = (case snapshot_command_line k t of None \<Rightarrow> ''Unknown'' | Some p \<Rightarrow> p)"
        unfolding c' by (simp add: string_or_unknown_def)
      from False \<open>pid_task k pid = Some t\<close> Some show ?thesis
        by (simp add: process_info_show_def four_lines_def snapshot_owner_id_def e c e' c'')
    qed
  qed
qed

lemma read_first_line:
  "first_line (seq (process_info_show k pid)) =
     (if pid \<le> 0 then ''No valid PID provided''
      else if pid_task k pid = None then ''Process with PID '' @ show_int pid @ '' not found''
      else ''PID: '' @ show_int pid)"
proof -
  have a: "first_line (''No valid PID provided'' @ [newline]) = ''No valid PID provided''"
    by (rule first_line_append [of _ "[]", simplified]) (simp add: newline_def)
  have b: "first_line (''Process with PID '' @ show_int pid @ '' not found'' @ [newline])
             = ''Process with PID '' @ show_int pid @ '' not found''"
    using first_line_append [of "''Process with PID '' @ show_int pid @ '' not found''" "[]"]
      show_int_no_newline [of pid]
    by (simp add: newline_def)
  have c: "first_line (four_lines pid u e s) = ''PID: '' @ show_int pid" for u e s
    using first_line_append [of "''PID: '' @ show_int pid"] show_int_no_newline [of pid]
    by (simp add: four_lines_def newline_def)
  show ?thesis
  proof (cases "pid \<le> 0")
    case True
    then have "seq (process_info_show k pid) = ''No valid PID provided'' @ [newline]"
      by (simp only: process_info_show_seq if_True)
    with True a show ?thesis by (simp only: if_True refl)
  next
    case False
    show ?thesis
    proof (cases "pid_task k pid")
      case None
      with False have "seq (process_info_show k pid)
                         = ''Process with PID '' @ show_int pid @ '' not found'' @ [newline]"
        by (simp only: process_info_show_seq if_False option.case)
      with False None b show ?thesis by (simp only: if_False if_True refl)
    next
      case (Some t)
      with False have "seq (process_info_show k pid)
                         = four_lines pid (snapshot_owner_id t)
                             (snapshot_executable_path k t) (snapshot_command_line k t)"
        by (simp only: process_info_show_seq if_False option.case)
      with False Some c show ?thesis by (simp only: if_False option.distinct refl)
    qed
  qed
qed

lemma process_info_show_retval: "retval (process_info_show k pid) = 0"
  by (simp add: process_info_show_def Let_def split: option.splits prod.splits)

lemma initial_read:
  "seq (process_info_show k initial_pid) = ''No valid PID provided'' @ [newline]"
  by (simp add: process_info_show_seq initial_pid_def)

lemmas snapshot_eval = snapshot_owner_id_def snapshot_executable_path_def snapshot_command_line_def
  read_cmdline_def snprintf_def cmdline_length_text_def four_lines_def

lemma example_tasks:
  "pid_task example_kernel 1 = Some init_task"
  "pid_task example_kernel 2 = Some kthreadd_task"
  "pid_task example_kernel 3 = Some long_args_task"
  "pid_task example_kernel 4 = Some exiting_task"
  "pid_task example_kernel 5 = Some newline_path_task"
  "pid_task example_kernel 6 = Some reaped_task"
  "pid_task example_kernel 9 = None"
  "pid_task starved_kernel 1 = Some init_task"
  by (simp_all add: example_kernel_def starved_kernel_def)

subsection \<open>The shape of the output\<close>

text \<open>
  Neither the placeholder nor the marker of \<^verbatim>\<open>read_cmdline\<close> contains a newline, so
  the command-line field never does; the executable field is the path as \<^verbatim>\<open>d_path\<close>
  resolved it, newlines included.
\<close>

lemma literals_no_newline:
  "newline \<notin> set cmdline_prefix" "newline \<notin> set cmdline_suffix" "newline \<notin> set no_cmdline_text"
  by (simp_all add: cmdline_prefix_def cmdline_suffix_def no_cmdline_text_def newline_def)

lemma read_cmdline_no_newline:
  assumes "mm t = Some m"
  shows "newline \<notin> set (take (p - 1) (fst (snd (read_cmdline (Some t) (Some old) (int p - 1)))))"
proof (cases "p \<le> 1")
  case True
  then show ?thesis by simp
next
  case False
  then have pos: "\<not> int p - 1 \<le> 0" by simp
  have a: "newline \<notin> set (take n (cmdline_length_text len))" for n len
    using literals_no_newline show_int_no_newline [of len]
    by (auto simp: cmdline_length_text_def dest!: in_set_takeD)
  have b: "newline \<notin> set (take n no_cmdline_text)" for n
    using literals_no_newline by (auto dest!: in_set_takeD)
  show ?thesis
    using assms pos a b
    by (auto simp: read_cmdline_def snprintf_def strscpy_def Let_def dest!: in_set_takeD)
qed

lemma command_line_no_newline:
  "newline \<notin> set (case snapshot_command_line k t of None \<Rightarrow> ''Unknown'' | Some c \<Rightarrow> c)"
proof (cases "snapshot_command_line k t")
  case None
  then show ?thesis by (simp add: newline_def)
next
  case (Some c)
  then obtain m where m: "mm t = Some m" and ok: "kmalloc_buffer k \<and> kmalloc_cmdline k"
    by (auto simp: snapshot_command_line_def split: option.splits if_splits)
  show ?thesis
  proof (cases "mm_again t")
    case None
    with Some m ok show ?thesis by (simp add: snapshot_command_line_def)
  next
    case again: (Some m2)
    have "mm (t\<lparr>mm := Some m2\<rparr>) = Some m2" by simp
    from read_cmdline_no_newline [OF this, of "PAGE_SIZE k" "uninitialised k"] Some m ok again
    show ?thesis by (simp add: snapshot_command_line_def)
  qed
qed

lemma four_lines_count:
  "count_list (four_lines pid owner path (snapshot_command_line k t)) newline =
     4 + count_list (case path of None \<Rightarrow> [] | Some p \<Rightarrow> p) newline"
proof -
  have u: "count_list ''Unknown'' newline = 0" by (simp add: newline_def)
  have c: "count_list (case snapshot_command_line k t of None \<Rightarrow> ''Unknown'' | Some c \<Rightarrow> c)
             newline = 0"
    by (rule count_notin [OF command_line_no_newline])
  have l: "count_list ''PID: '' newline = 0" "count_list ''UID: '' newline = 0"
    "count_list ''Executable: '' newline = 0" "count_list ''Command line: '' newline = 0"
    by (simp_all add: newline_def)
  have i: "count_list (show_int n) newline = 0" for n
    by (rule count_notin [OF show_int_no_newline])
  have e: "count_list (case path of None \<Rightarrow> ''Unknown'' | Some p \<Rightarrow> p) newline
             = count_list (case path of None \<Rightarrow> [] | Some p \<Rightarrow> p) newline"
    using u by (cases path) simp_all
  show ?thesis
    unfolding four_lines_def count_list_append c l i e by simp
qed

text \<open>
  Claim C1, as stated, at two reads on the concrete kernel. Process 4 loses its memory
  map between the two lookups of the read: its command line is absent, and the field is
  printed empty, not as \<open>Unknown\<close>. Process 5 has a newline in the name of its
  executable: the output has five lines.
\<close>

theorem read_output_counterexample:
  "pid_task example_kernel 4 = Some exiting_task
   \<and> mm exiting_task = Some init_mm \<and> mm_again exiting_task = None
   \<and> seq (process_info_show example_kernel 4) =
       ''PID: 4'' @ [newline] @ ''UID: 0'' @ [newline] @ ''Executable: /sbin/init'' @ [newline]
       @ ''Command line: '' @ [newline]
   \<and> seq (process_info_show example_kernel 4) \<noteq>
       ''PID: 4'' @ [newline] @ ''UID: 0'' @ [newline] @ ''Executable: /sbin/init'' @ [newline]
       @ ''Command line: Unknown'' @ [newline]
   \<and> count_list (seq (process_info_show example_kernel 5)) newline = 5"
proof -
  have a: "pid_task example_kernel 4 = Some exiting_task" by (rule example_tasks)
  have b: "mm exiting_task = Some init_mm \<and> mm_again exiting_task = None"
    by (simp add: exiting_task_def)
  have c: "seq (process_info_show example_kernel 4) =
       ''PID: 4'' @ [newline] @ ''UID: 0'' @ [newline] @ ''Executable: /sbin/init'' @ [newline]
       @ ''Command line: '' @ [newline]"
    by (simp add: process_info_show_seq example_tasks snapshot_owner_id_def
        snapshot_executable_path_def snapshot_command_line_def four_lines_def kernel_eval
        show_eval)
  have d: "seq (process_info_show example_kernel 4) \<noteq>
       ''PID: 4'' @ [newline] @ ''UID: 0'' @ [newline] @ ''Executable: /sbin/init'' @ [newline]
       @ ''Command line: Unknown'' @ [newline]"
    unfolding c by simp
  have s5: "seq (process_info_show example_kernel 5) =
              four_lines 5 (snapshot_owner_id newline_path_task)
                (snapshot_executable_path example_kernel newline_path_task)
                (snapshot_command_line example_kernel newline_path_task)"
    by (simp add: process_info_show_seq example_tasks)
  have p5: "snapshot_executable_path example_kernel newline_path_task
              = Some (''/tmp/a'' @ [newline] @ ''b'')"
    by (simp add: snapshot_executable_path_def kernel_eval)
  have c5: "count_list (''/tmp/a'' @ [newline] @ ''b'') newline = 1"
    by (simp add: newline_def)
  have e: "count_list (seq (process_info_show example_kernel 5)) newline = 5"
    unfolding s5 four_lines_count p5 option.case c5 by simp
  from a b c d e show ?thesis by (simp only: simp_thms)
qed

text \<open>
  Claim C1, amended. For every read: if the current selection is not positive, the
  output is the single line \<open>No valid PID provided\<close>; if no live process has the
  selected identifier, the output is the single line \<open>Process with PID <id> not found\<close>
  naming that identifier; otherwise the output is the four fields PID, UID, Executable
  and Command line, in that order and each ended by a newline, with \<open>Unknown\<close> in place
  of an executable path or a command line that is absent from the snapshot, and with an
  empty command-line field when the memory map of the process is gone by the time
  \<^verbatim>\<open>read_cmdline\<close> looks it up. These are exactly four lines unless the resolved
  executable path contains a newline itself: the output has four newlines and those of
  the path.
\<close>

theorem read_output:
  "seq (process_info_show k pid) =
     (if pid \<le> 0 then ''No valid PID provided'' @ [newline]
      else (case pid_task k pid of
              None \<Rightarrow> ''Process with PID '' @ show_int pid @ '' not found'' @ [newline]
            | Some t \<Rightarrow>
                four_lines pid (snapshot_owner_id t)
                  (snapshot_executable_path k t) (snapshot_command_line k t)))
   \<and> (pid \<le> 0 \<or> pid_task k pid = None
        \<longrightarrow> count_list (seq (process_info_show k pid)) newline = 1)
   \<and> (0 < pid \<and> pid_task k pid = Some t
        \<longrightarrow> count_list (seq (process_info_show k pid)) newline
              = 4 + count_list (case snapshot_executable_path k t of None \<Rightarrow> [] | Some p \<Rightarrow> p)
                      newline)
   \<and> (0 < pid \<and> pid_task k pid = Some t \<and> mm t \<noteq> None
        \<and> kmalloc_buffer k \<and> kmalloc_cmdline k \<and> mm_again t = None
        \<longrightarrow> snapshot_command_line k t = Some [])"
proof -
  have one: "pid \<le> 0 \<or> pid_task k pid = None
        \<longrightarrow> count_list (seq (process_info_show k pid)) newline = 1"
  proof
    assume h: "pid \<le> 0 \<or> pid_task k pid = None"
    have i: "count_list (show_int pid) newline = 0"
      by (rule count_notin [OF show_int_no_newline])
    have n: "count_list ''No valid PID provided'' newline = 0"
      "count_list ''Process with PID '' newline = 0" "count_list '' not found'' newline = 0"
      by (simp_all add: newline_def)
    show "count_list (seq (process_info_show k pid)) newline = 1"
    proof (cases "pid \<le> 0")
      case True
      then have "seq (process_info_show k pid) = ''No valid PID provided'' @ [newline]"
        by (simp only: process_info_show_seq if_True)
      then show ?thesis using n by (simp only: count_list_append) simp
    next
      case False
      with h have "seq (process_info_show k pid)
                     = ''Process with PID '' @ show_int pid @ '' not found'' @ [newline]"
        by (simp add: process_info_show_seq)
      then show ?thesis using n i by (simp only: count_list_append) simp
    qed
  qed
  have four: "0 < pid \<and> pid_task k pid = Some t
        \<longrightarrow> count_list (seq (process_info_show k pid)) newline
              = 4 + count_list (case snapshot_executable_path k t of None \<Rightarrow> [] | Some p \<Rightarrow> p)
                      newline"
    by (simp add: process_info_show_seq four_lines_count)
  have gone: "0 < pid \<and> pid_task k pid = Some t \<and> mm t \<noteq> None
        \<and> kmalloc_buffer k \<and> kmalloc_cmdline k \<and> mm_again t = None
        \<longrightarrow> snapshot_command_line k t = Some []"
    by (auto simp: snapshot_command_line_def)
  from process_info_show_seq [of k pid] one four gone show ?thesis
    by (simp only: simp_thms)
qed

text \<open>
  Reads of \<open>read_output\<close>: no selection, a missing process, process 1 with every
  field present, process 1 when every allocation is refused, and process 4, whose
  memory map is gone at the second lookup.
\<close>

theorem read_output_witness:
  "seq (process_info_show example_kernel 0) = ''No valid PID provided'' @ [newline]
   \<and> seq (process_info_show example_kernel 9) = ''Process with PID 9 not found'' @ [newline]
   \<and> seq (process_info_show example_kernel 1) =
       ''PID: 1'' @ [newline] @ ''UID: 0'' @ [newline] @ ''Executable: /sbin/init'' @ [newline]
       @ ''Command line: '' @ cmdline_prefix @ ''11'' @ cmdline_suffix @ [newline]
   \<and> seq (process_info_show starved_kernel 1) =
       ''PID: 1'' @ [newline] @ ''UID: 0'' @ [newline] @ ''Executable: Unknown'' @ [newline]
       @ ''Command line: Unknown'' @ [newline]
   \<and> count_list (seq (process_info_show example_kernel 0)) newline = 1
   \<and> count_list (seq (process_info_show example_kernel 1)) newline = 4
   \<and> snapshot_command_line example_kernel exiting_task = Some []"
proof -
  note th0 = read_output [of example_kernel 0 init_task]
  note th9 = read_output [of example_kernel 9 init_task]
  note th1 = read_output [of example_kernel 1 init_task]
  note ths = read_output [of starved_kernel 1 init_task]
  note th4 = read_output [of example_kernel 4 exiting_task]
  have a: "seq (process_info_show example_kernel 0) = ''No valid PID provided'' @ [newline]"
    using th0 [THEN conjunct1] by simp
  have b: "seq (process_info_show example_kernel 9) = ''Process with PID 9 not found'' @ [newline]"
    using th9 [THEN conjunct1] by (simp add: example_tasks show_eval)
  have c: "seq (process_info_show example_kernel 1) =
       ''PID: 1'' @ [newline] @ ''UID: 0'' @ [newline] @ ''Executable: /sbin/init'' @ [newline]
       @ ''Command line: '' @ cmdline_prefix @ ''11'' @ cmdline_suffix @ [newline]"
    using th1 [THEN conjunct1]
    by (simp add: example_tasks snapshot_eval kernel_eval show_eval cmdline_prefix_def
        cmdline_suffix_def)
  have d: "seq (process_info_show starved_kernel 1) =
       ''PID: 1'' @ [newline] @ ''UID: 0'' @ [newline] @ ''Executable: Unknown'' @ [newline]
       @ ''Command line: Unknown'' @ [newline]"
    using ths [THEN conjunct1]
    by (simp add: example_tasks snapshot_eval kernel_eval starved_kernel_def show_eval)
  have h0: "(0::int) \<le> 0 \<or> pid_task example_kernel 0 = None" by simp
  have e: "count_list (seq (process_info_show example_kernel 0)) newline = 1"
    using th0 [THEN conjunct2, THEN conjunct1] h0 by blast
  have h1: "(0::int) < 1 \<and> pid_task example_kernel 1 = Some init_task"
    by (simp add: example_tasks)
  have p1: "count_list (case snapshot_executable_path example_kernel init_task of
                          None \<Rightarrow> [] | Some p \<Rightarrow> p) newline = 0"
    by (simp add: snapshot_executable_path_def kernel_eval newline_def)
  have f: "count_list (seq (process_info_show example_kernel 1)) newline = 4"
    using th1 [THEN conjunct2, THEN conjunct2, THEN conjunct1] h1 p1 by simp
  have h4: "(0::int) < 4 \<and> pid_task example_kernel 4 = Some exiting_task
            \<and> mm exiting_task \<noteq> None
            \<and> kmalloc_buffer example_kernel \<and> kmalloc_cmdline example_kernel
            \<and> mm_again exiting_task = None"
    by (simp add: example_tasks exiting_task_def example_kernel_def)
  have g: "snapshot_command_line example_kernel exiting_task = Some []"
    using th4 [THEN conjunct2, THEN conjunct2, THEN conjunct2] h4 by blast
  from a b c d e f g show ?thesis by (simp only: simp_thms)
qed

subsection \<open>A read never fails\<close>

text \<open>
  Claim C3, as stated, at a read of process 6 of the concrete kernel, whose memory map
  is gone when \<^verbatim>\<open>read_cmdline\<close> looks it up: the read returns 0, and the failure of
  \<^verbatim>\<open>read_cmdline\<close> is absorbed into an empty command-line field, which is neither
  the absence marker \<open>Unknown\<close> nor the marker or the placeholder of \<^verbatim>\<open>read_cmdline\<close>.
\<close>

theorem read_absorbs_counterexample:
  "pid_task example_kernel 6 = Some reaped_task
   \<and> mm reaped_task = Some long_args_mm \<and> mm_again reaped_task = None
   \<and> retval (process_info_show example_kernel 6) = 0
   \<and> seq (process_info_show example_kernel 6) =
       ''PID: 6'' @ [newline] @ ''UID: 1000'' @ [newline] @ ''Executable: Unknown'' @ [newline]
       @ ''Command line: '' @ [newline]
   \<and> seq (process_info_show example_kernel 6) \<noteq>
       ''PID: 6'' @ [newline] @ ''UID: 1000'' @ [newline] @ ''Executable: Unknown'' @ [newline]
       @ ''Command line: Unknown'' @ [newline]
   \<and> seq (process_info_show example_kernel 6) \<noteq>
       ''PID: 6'' @ [newline] @ ''UID: 1000'' @ [newline] @ ''Executable: Unknown'' @ [newline]
       @ ''Command line: '' @ no_cmdline_text @ [newline]
   \<and> seq (process_info_show example_kernel 6) \<noteq>
       ''PID: 6'' @ [newline] @ ''UID: 1000'' @ [newline] @ ''Executable: Unknown'' @ [newline]
       @ ''Command line: '' @ cmdline_length_text 4094 @ [newline]"
proof -
  have a: "pid_task example_kernel 6 = Some reaped_task" by (rule example_tasks)
  have b: "mm reaped_task = Some long_args_mm \<and> mm_again reaped_task = None"
    by (simp add: reaped_task_def)
  have r: "retval (process_info_show example_kernel 6) = 0"
    by (rule process_info_show_retval)
  have c: "seq (process_info_show example_kernel 6) =
       ''PID: 6'' @ [newline] @ ''UID: 1000'' @ [newline] @ ''Executable: Unknown'' @ [newline]
       @ ''Command line: '' @ [newline]"
    by (simp add: process_info_show_seq example_tasks snapshot_owner_id_def
        snapshot_executable_path_def snapshot_command_line_def four_lines_def kernel_eval
        show_eval)
  have d: "seq (process_info_show example_kernel 6) \<noteq>
       ''PID: 6'' @ [newline] @ ''UID: 1000'' @ [newline] @ ''Executable: Unknown'' @ [newline]
       @ ''Command line: Unknown'' @ [newline]"
    unfolding c by simp
  have e: "seq (process_info_show example_kernel 6) \<noteq>
       ''PID: 6'' @ [newline] @ ''UID: 1000'' @ [newline] @ ''Executable: Unknown'' @ [newline]
       @ ''Command line: '' @ no_cmdline_text @ [newline]"
    unfolding c by (simp add: no_cmdline_text_def)
  have f: "seq (process_info_show example_kernel 6) \<noteq>
       ''PID: 6'' @ [newline] @ ''UID: 1000'' @ [newline] @ ''Executable: Unknown'' @ [newline]
       @ ''Command line: '' @ cmdline_length_text 4094 @ [newline]"
    unfolding c by (simp add: cmdline_length_text_def cmdline_prefix_def)
  from a b r c d e f show ?thesis by (simp only: simp_thms)
qed

text \<open>
  Claim C3, amended. Every read returns 0 and prints some text, whatever the kernel
  answers: no failure during a read is surfaced as an error status. A missing process
  gives the line that names it; a process without a memory map, a refused path buffer,
  a missing executable-file reference and a failed path resolution each leave the
  executable field absent; a process without a memory map and a refused command-line
  buffer each leave the command-line field absent; and a memory map that is gone by
  the time \<^verbatim>\<open>read_cmdline\<close> looks it up leaves the command-line field empty.
\<close>

theorem read_always_succeeds:
  "retval (process_info_show k pid) = 0
   \<and> seq (process_info_show k pid) \<noteq> []
   \<and> (0 < pid \<and> pid_task k pid = None
        \<longrightarrow> seq (process_info_show k pid)
              = ''Process with PID '' @ show_int pid @ '' not found'' @ [newline])
   \<and> (0 < pid \<and> pid_task k pid = Some t
        \<and> (mm t = None \<or> \<not> kmalloc_exec_path k
            \<or> (\<exists>m. mm t = Some m
                  \<and> (exe_file m = None
                      \<or> (\<exists>f e. exe_file m = Some f \<and> d_path k (f_path f) PATH_MAX = Inl e))))
        \<longrightarrow> (\<exists>c. seq (process_info_show k pid) = four_lines pid (snapshot_owner_id t) None c))
   \<and> (0 < pid \<and> pid_task k pid = Some t
        \<and> (mm t = None \<or> \<not> kmalloc_buffer k \<or> \<not> kmalloc_cmdline k)
        \<longrightarrow> (\<exists>e. seq (process_info_show k pid) = four_lines pid (snapshot_owner_id t) e None))
   \<and> (0 < pid \<and> pid_task k pid = Some t \<and> mm t \<noteq> None
        \<and> kmalloc_buffer k \<and> kmalloc_cmdline k \<and> mm_again t = None
        \<longrightarrow> (\<exists>e. seq (process_info_show k pid)
                   = four_lines pid (snapshot_owner_id t) e (Some [])))"
proof -
  have a: "retval (process_info_show k pid) = 0 \<and> seq (process_info_show k pid) \<noteq> []"
    by (simp add: process_info_show_def Let_def split: option.splits prod.splits)
  have b: "0 < pid \<and> pid_task k pid = None
        \<longrightarrow> seq (process_info_show k pid)
              = ''Process with PID '' @ show_int pid @ '' not found'' @ [newline]"
    by (simp add: process_info_show_seq)
  have c: "0 < pid \<and> pid_task k pid = Some t
        \<and> (mm t = None \<or> \<not> kmalloc_exec_path k
            \<or> (\<exists>m. mm t = Some m
                  \<and> (exe_file m = None
                      \<or> (\<exists>f e. exe_file m = Some f \<and> d_path k (f_path f) PATH_MAX = Inl e))))
        \<longrightarrow> (\<exists>c. seq (process_info_show k pid) = four_lines pid (snapshot_owner_id t) None c)"
  proof
    assume h: "0 < pid \<and> pid_task k pid = Some t
        \<and> (mm t = None \<or> \<not> kmalloc_exec_path k
            \<or> (\<exists>m. mm t = Some m
                  \<and> (exe_file m = None
                      \<or> (\<exists>f e. exe_file m = Some f \<and> d_path k (f_path f) PATH_MAX = Inl e))))"
    then have "snapshot_executable_path k t = None"
      by (auto simp: snapshot_executable_path_def split: option.splits)
    with h have "seq (process_info_show k pid)
                   = four_lines pid (snapshot_owner_id t) None (snapshot_command_line k t)"
      by (simp add: process_info_show_seq)
    then show "\<exists>c. seq (process_info_show k pid) = four_lines pid (snapshot_owner_id t) None c" ..
  qed
  have d: "0 < pid \<and> pid_task k pid = Some t
        \<and> (mm t = None \<or> \<not> kmalloc_buffer k \<or> \<not> kmalloc_cmdline k)
        \<longrightarrow> (\<exists>e. seq (process_info_show k pid) = four_lines pid (snapshot_owner_id t) e None)"
  proof
    assume h: "0 < pid \<and> pid_task k pid = Some t
        \<and> (mm t = None \<or> \<not> kmalloc_buffer k \<or> \<not> kmalloc_cmdline k)"
    then have "snapshot_command_line k t = None"
      by (auto simp: snapshot_command_line_def split: option.splits)
    with h have "seq (process_info_show k pid)
                   = four_lines pid (snapshot_owner_id t) (snapshot_executable_path k t) None"
      by (simp add: process_info_show_seq)
    then show "\<exists>e. seq (process_info_show k pid) = four_lines pid (snapshot_owner_id t) e None" ..
  qed
  have e: "0 < pid \<and> pid_task k pid = Some t \<and> mm t \<noteq> None
        \<and> kmalloc_buffer k \<and> kmalloc_cmdline k \<and> mm_again t = None
        \<longrightarrow> (\<exists>e. seq (process_info_show k pid)
                   = four_lines pid (snapshot_owner_id t) e (Some []))"
  proof
    assume h: "0 < pid \<and> pid_task k pid = Some t \<and> mm t \<noteq> None
        \<and> kmalloc_buffer k \<and> kmalloc_cmdline k \<and> mm_again t = None"
    then have "snapshot_command_line k t = Some []"
      by (auto simp: snapshot_command_line_def)
    with h have "seq (process_info_show k pid)
                   = four_lines pid (snapshot_owner_id t) (snapshot_executable_path k t) (Some [])"
      by (simp add: process_info_show_seq)
    then show "\<exists>e. seq (process_info_show k pid)
                   = four_lines pid (snapshot_owner_id t) e (Some [])" ..
  qed
  from a b c d e show ?thesis by (simp only: simp_thms)
qed

text \<open>
  The failure modes at concrete reads: process 9 is missing, every allocation for
  process 1 is refused, and the memory map of process 4 is gone at the second lookup.
\<close>

theorem read_always_succeeds_witness:
  "retval (process_info_show starved_kernel 1) = 0
   \<and> seq (process_info_show starved_kernel 1) \<noteq> []
   \<and> seq (process_info_show example_kernel 9) = ''Process with PID 9 not found'' @ [newline]
   \<and> (\<exists>c. seq (process_info_show starved_kernel 1)
            = four_lines 1 (snapshot_owner_id init_task) None c)
   \<and> (\<exists>e. seq (process_info_show starved_kernel 1)
            = four_lines 1 (snapshot_owner_id init_task) e None)
   \<and> (\<exists>e. seq (process_info_show example_kernel 4)
            = four_lines 4 (snapshot_owner_id exiting_task) e (Some []))"
proof -
  have h1: "(0::int) < 9 \<and> pid_task example_kernel 9 = None"
    by (simp add: example_tasks)
  have h2: "(0::int) < 1 \<and> pid_task starved_kernel 1 = Some init_task
        \<and> (mm init_task = None \<or> \<not> kmalloc_exec_path starved_kernel
            \<or> (\<exists>m. mm init_task = Some m
                  \<and> (exe_file m = None
                      \<or> (\<exists>f e. exe_file m = Some f
                               \<and> d_path starved_kernel (f_path f) PATH_MAX = Inl e))))"
    by (simp add: example_tasks starved_kernel_def)
  have h3: "(0::int) < 1 \<and> pid_task starved_kernel 1 = Some init_task
        \<and> (mm init_task = None \<or> \<not> kmalloc_buffer starved_kernel
            \<or> \<not> kmalloc_cmdline starved_kernel)"
    by (simp add: example_tasks starved_kernel_def)
  have s: "''Process with PID '' @ show_int 9 @ '' not found'' @ [newline]
             = ''Process with PID 9 not found'' @ [newline]"
    by (simp add: show_eval)
  have h4: "(0::int) < 4 \<and> pid_task example_kernel 4 = Some exiting_task
        \<and> mm exiting_task \<noteq> None
        \<and> kmalloc_buffer example_kernel \<and> kmalloc_cmdline example_kernel
        \<and> mm_again exiting_task = None"
    by (simp add: example_tasks exiting_task_def example_kernel_def)
  note ts = read_always_succeeds [of starved_kernel 1 init_task]
  note t9 = read_always_succeeds [of example_kernel 9 init_task]
  note t4 = read_always_succeeds [of example_kernel 4 exiting_task]
  have w1: "retval (process_info_show starved_kernel 1) = 0"
    by (rule ts [THEN conjunct1])
  have w2: "seq (process_info_show starved_kernel 1) \<noteq> []"
    by (rule ts [THEN conjunct2, THEN conjunct1])
  have w3: "seq (process_info_show example_kernel 9) = ''Process with PID 9 not found'' @ [newline]"
    using t9 [THEN conjunct2, THEN conjunct2, THEN conjunct1, THEN mp, OF h1]
    by (simp only: s)
  have w4: "\<exists>c. seq (process_info_show starved_kernel 1)
            = four_lines 1 (snapshot_owner_id init_task) None c"
    by (rule ts [THEN conjunct2, THEN conjunct2, THEN conjunct2, THEN conjunct1, THEN mp, OF h2])
  have w5: "\<exists>e. seq (process_info_show starved_kernel 1)
            = four_lines 1 (snapshot_owner_id init_task) e None"
    by (rule ts [THEN conjunct2, THEN conjunct2, THEN conjunct2, THEN conjunct2, THEN conjunct1,
          THEN mp, OF h3])
  have w6: "\<exists>e. seq (process_info_show example_kernel 4)
            = four_lines 4 (snapshot_owner_id exiting_task) e (Some [])"
    by (rule t4 [THEN conjunct2, THEN conjunct2, THEN conjunct2, THEN conjunct2, THEN conjunct2,
          THEN mp, OF h4])
  from w1 w2 w3 w4 w5 w6 show ?thesis by (simp only: simp_thms)
qed

subsection \<open>A process without a memory map\<close>

text \<open>
  Claim C5, as stated, at process 2 of the concrete kernel, which has no memory map: the
  command-line field reads \<open>Unknown\<close>, not the text \<^verbatim>\<open>read_cmdline\<close> uses for an
  empty argument region.
\<close>

theorem no_memory_map_counterexample:
  "pid_task example_kernel 2 = Some kthreadd_task \<and> mm kthreadd_task = None
   \<and> seq (process_info_show example_kernel 2) =
       ''PID: 2'' @ [newline] @ ''UID: 0'' @ [newline] @ ''Executable: Unknown'' @ [newline]
       @ ''Command line: Unknown'' @ [newline]
   \<and> seq (process_info_show example_kernel 2) \<noteq>
       ''PID: 2'' @ [newline] @ ''UID: 0'' @ [newline] @ ''Executable: Unknown'' @ [newline]
       @ ''Command line: '' @ no_cmdline_text @ [newline]"
  by (simp add: process_info_show_seq example_tasks snapshot_eval kthreadd_task_def show_eval
      no_cmdline_text_def)

text \<open>
  Claim C5, amended. For a read resolving a live process that has no memory-map handle,
  the output reports the owner id of the process, \<open>Unknown\<close> for the executable path
  and \<open>Unknown\<close> for the command line.
\<close>

theorem no_memory_map_report:
  assumes "0 < pid" and "pid_task k pid = Some t" and "mm t = None"
  shows "seq (process_info_show k pid) =
           ''PID: '' @ show_int pid @ [newline]
           @ ''UID: '' @ show_int (signed_take_bit 31 (int (task_uid t))) @ [newline]
           @ ''Executable: Unknown'' @ [newline]
           @ ''Command line: Unknown'' @ [newline]"
  using assms
  by (simp add: process_info_show_seq four_lines_def snapshot_owner_id_def
      snapshot_executable_path_def snapshot_command_line_def)

text \<open>Process 2 of the concrete kernel.\<close>

theorem no_memory_map_report_witness:
  "(0::int) < 2 \<and> pid_task example_kernel 2 = Some kthreadd_task \<and> mm kthreadd_task = None
   \<and> seq (process_info_show example_kernel 2) =
       ''PID: '' @ show_int 2 @ [newline]
       @ ''UID: '' @ show_int (signed_take_bit 31 (int (task_uid kthreadd_task))) @ [newline]
       @ ''Executable: Unknown'' @ [newline]
       @ ''Command line: Unknown'' @ [newline]"
proof -
  have h1: "(0::int) < 2" by simp
  have h2: "pid_task example_kernel 2 = Some kthreadd_task" by (rule example_tasks)
  have h3: "mm kthreadd_task = None" by (simp add: kthreadd_task_def)
  from h1 h2 h3 no_memory_map_report [OF h1 h2 h3] show ?thesis by (simp only: simp_thms)
qed

section \<open>The command-line summary\<close>

lemma show_nat_length: "n < 10 ^ Suc j \<Longrightarrow> length (show_nat n) \<le> Suc j"
proof (induction j arbitrary: n)
  case 0
  then show ?case by (simp add: show_nat_digit)
next
  case (Suc j)
  show ?case
  proof (cases "n < 10")
    case True
    then show ?thesis by (simp add: show_nat_digit)
  next
    case False
    from Suc.prems have "n div 10 < 10 ^ Suc j" by simp
    from Suc.IH [OF this] False show ?thesis by (simp add: show_nat_step)
  qed
qed

lemma show_int_length:
  assumes "- (2 ^ 31) \<le> i" "i < 2 ^ 31"
  shows "length (show_int i) \<le> 11"
proof -
  have "nat \<bar>i\<bar> < 10 ^ Suc 9" using assms by simp
  from show_nat_length [OF this] have "length (show_nat (nat \<bar>i\<bar>)) \<le> 10" by simp
  then show ?thesis by (auto simp: show_int_def abs_if split: if_splits)
qed

lemma literal_lengths:
  "length cmdline_prefix = 46" "length cmdline_suffix = 10" "length no_cmdline_text = 56"
  by (simp_all add: cmdline_prefix_def cmdline_suffix_def no_cmdline_text_def)

lemma no_cmdline_text_not_placeholder: "no_cmdline_text \<noteq> cmdline_prefix @ s @ cmdline_suffix"
  by (simp add: cmdline_prefix_def no_cmdline_text_def)

lemma clamped_length_range:
  assumes "4096 \<le> (p::nat)"
  shows "- (2 ^ 31) \<le> min (signed_take_bit 31 x) (int p - 2)"
    and "min (signed_take_bit 31 x) (int p - 2) < 2 ^ 31"
proof -
  have "- (2 ^ 31) \<le> signed_take_bit 31 x" "signed_take_bit 31 x < 2 ^ 31"
    using signed_take_bit_int_greater_eq_minus_exp [of 31 x]
      signed_take_bit_int_less_exp [of 31 x]
    by simp_all
  then show "- (2 ^ 31) \<le> min (signed_take_bit 31 x) (int p - 2)"
    and "min (signed_take_bit 31 x) (int p - 2) < 2 ^ 31"
    using assms by (simp_all add: min_def)
qed

lemma read_cmdline_result:
  assumes m: "mm t = Some m" and page: "4096 \<le> PAGE_SIZE k"
  defines "S \<equiv> (if arg_start m < arg_end m
                 then cmdline_prefix
                      @ show_int (min (signed_take_bit 31 (int ((arg_end m - arg_start m) mod 2 ^ 64)))
                                      (int (PAGE_SIZE k) - 2))
                      @ cmdline_suffix
                 else no_cmdline_text)"
  shows "read_cmdline (Some t) (Some old) (int (PAGE_SIZE k) - 1)
           = (Inr (int (length S)), S, [GetTaskMm True, MmPut])"
    and "length S \<le> 67"
proof -
  let ?len = "min (signed_take_bit 31 (int ((arg_end m - arg_start m) mod 2 ^ 64)))
                  (int (PAGE_SIZE k) - 2)"
  have len: "length (show_int ?len) \<le> 11"
    by (rule show_int_length [OF clamped_length_range [OF page]])
  then show S67: "length S \<le> 67"
    by (simp add: S_def literal_lengths)
  have clamp: "(if int (PAGE_SIZE k) - 1 - 1
                    < signed_take_bit 31 (int ((arg_end m - arg_start m) mod 2 ^ 64))
                then int (PAGE_SIZE k) - 1 - 1
                else signed_take_bit 31 (int ((arg_end m - arg_start m) mod 2 ^ 64))) = ?len"
    by (simp add: min_def)
  have fits: "length S \<le> nat (int (PAGE_SIZE k) - 1 - 1)"
    using S67 page by simp
  show "read_cmdline (Some t) (Some old) (int (PAGE_SIZE k) - 1)
           = (Inr (int (length S)), S, [GetTaskMm True, MmPut])"
  proof (cases "arg_start m < arg_end m")
    case True
    then have S: "S = cmdline_length_text ?len" by (simp add: S_def cmdline_length_text_def)
    have pos: "\<not> int (PAGE_SIZE k) - 1 \<le> 0" using page by simp
    show ?thesis
      using True m fits pos unfolding S
      by (simp add: read_cmdline_def snprintf_def Let_def clamp del: signed_take_bit_int_less_eq_self_iff)
  next
    case False
    then have S: "S = no_cmdline_text" by (simp add: S_def)
    have pos: "\<not> int (PAGE_SIZE k) - 1 \<le> 0" using page by simp
    show ?thesis
      using False m fits pos unfolding S
      by (simp add: read_cmdline_def strscpy_def Let_def)
  qed
qed

lemma show_cmdline_bounded:
  "fst (show_cmdline k t) = Some c \<Longrightarrow> length c \<le> PAGE_SIZE k - 1"
  by (auto simp: show_cmdline_def Let_def split: if_splits prod.splits)

text \<open>
  Claim C6, as stated, at process 3 of the concrete kernel, whose argument region is
  5000 bytes long: the placeholder gives 4094, not the length of the region, and so
  does the command-line field of a read of process 3.
\<close>

theorem cmdline_length_counterexample:
  "mm long_args_task = Some long_args_mm
   \<and> arg_end long_args_mm - arg_start long_args_mm = 5000
   \<and> fst (snd (read_cmdline (Some long_args_task) (Some []) (int (PAGE_SIZE example_kernel) - 1)))
       = cmdline_prefix @ ''4094'' @ cmdline_suffix
   \<and> fst (snd (read_cmdline (Some long_args_task) (Some []) (int (PAGE_SIZE example_kernel) - 1)))
       \<noteq> cmdline_prefix @ ''5000'' @ cmdline_suffix
   \<and> seq (process_info_show example_kernel 3) =
       ''PID: 3'' @ [newline] @ ''UID: 1000'' @ [newline] @ ''Executable: Unknown'' @ [newline]
       @ ''Command line: '' @ cmdline_prefix @ ''4094'' @ cmdline_suffix @ [newline]"
  by (simp add: process_info_show_seq example_tasks snapshot_eval kernel_eval show_eval
      cmdline_prefix_def cmdline_suffix_def)

text \<open>
  Claim C6, amended. For the command-line extraction of a process with a memory-map
  handle, on a kernel whose pages have at least 4096 bytes: if the argument region is
  not empty the result is the placeholder that gives the byte length of the region,
  narrowed to a signed 32-bit integer and then limited to the page size minus two; if
  the region is empty the result is the fixed marker for no data, which is not the
  placeholder of length zero; the value returned is the length of the result; the
  result is never longer than a page less its last byte; and when both buffers are
  allocated it is the command-line field of the read of a process whose memory map,
  as \<^verbatim>\<open>read_cmdline\<close> finds it, is this one.
\<close>

theorem cmdline_summary:
  assumes "mm t = Some m" and "4096 \<le> PAGE_SIZE k"
  shows "fst (snd (read_cmdline (Some t) (Some old) (int (PAGE_SIZE k) - 1))) =
           (if arg_start m < arg_end m
            then cmdline_prefix
                 @ show_int (min (signed_take_bit 31 (int ((arg_end m - arg_start m) mod 2 ^ 64)))
                                 (int (PAGE_SIZE k) - 2))
                 @ cmdline_suffix
            else no_cmdline_text)
         \<and> no_cmdline_text \<noteq> cmdline_prefix @ show_int 0 @ cmdline_suffix
         \<and> fst (read_cmdline (Some t) (Some old) (int (PAGE_SIZE k) - 1))
             = Inr (int (length (fst (snd (read_cmdline (Some t) (Some old) (int (PAGE_SIZE k) - 1))))))
         \<and> length (fst (snd (read_cmdline (Some t) (Some old) (int (PAGE_SIZE k) - 1))))
             \<le> PAGE_SIZE k - 1
         \<and> (kmalloc_buffer k \<and> kmalloc_cmdline k \<and> mm_again task = Some m \<longrightarrow>
              fst (show_cmdline k task)
                = Some (fst (snd (read_cmdline (Some t) (Some (uninitialised k))
                                    (int (PAGE_SIZE k) - 1)))))"
proof -
  note r = read_cmdline_result [OF assms]
  have fits: "length (fst (snd (read_cmdline (Some t) (Some (uninitialised k))
                                  (int (PAGE_SIZE k) - 1)))) \<le> PAGE_SIZE k - 1"
    using r(2) assms(2) by (simp add: r(1))
  have same: "read_cmdline (Some (task\<lparr>mm := Some m\<rparr>)) (Some (uninitialised k))
                (int (PAGE_SIZE k) - 1)
              = read_cmdline (Some t) (Some (uninitialised k)) (int (PAGE_SIZE k) - 1)"
    by (rule read_cmdline_same_mm) (simp add: assms(1))
  have field: "kmalloc_buffer k \<and> kmalloc_cmdline k \<and> mm_again task = Some m \<longrightarrow>
          fst (show_cmdline k task)
            = Some (fst (snd (read_cmdline (Some t) (Some (uninitialised k))
                                (int (PAGE_SIZE k) - 1))))"
  proof
    assume h: "kmalloc_buffer k \<and> kmalloc_cmdline k \<and> mm_again task = Some m"
    then have "fst (show_cmdline k task) =
           Some (take (PAGE_SIZE k - 1)
             (fst (snd (read_cmdline (Some (task\<lparr>mm := Some m\<rparr>)) (Some (uninitialised k))
                         (int (PAGE_SIZE k) - 1)))))"
      by (intro show_cmdline_text) simp_all
    then show "fst (show_cmdline k task)
            = Some (fst (snd (read_cmdline (Some t) (Some (uninitialised k))
                                (int (PAGE_SIZE k) - 1))))"
      using fits by (simp only: same take_all)
  qed
  have bound: "length (fst (snd (read_cmdline (Some t) (Some old) (int (PAGE_SIZE k) - 1))))
             \<le> PAGE_SIZE k - 1"
    using r(2) assms(2) by (simp add: r(1))
  from field bound show ?thesis
    by (simp add: r(1) no_cmdline_text_not_placeholder)
qed

text \<open>
  Process 1 with its eleven-byte region, a process with an empty region, and the
  command-line field of process 1.
\<close>

theorem cmdline_summary_witness:
  "fst (snd (read_cmdline (Some init_task) (Some []) (int (PAGE_SIZE example_kernel) - 1)))
     = cmdline_prefix @ ''11'' @ cmdline_suffix
   \<and> fst (snd (read_cmdline (Some no_args_task) (Some []) (int (PAGE_SIZE example_kernel) - 1)))
     = no_cmdline_text
   \<and> fst (show_cmdline example_kernel init_task) = Some (cmdline_prefix @ ''11'' @ cmdline_suffix)"
proof -
  have h1: "mm init_task = Some init_mm" by (simp add: init_task_def)
  have h2: "mm no_args_task = Some no_args_mm" by (simp add: no_args_task_def)
  have p: "4096 \<le> PAGE_SIZE example_kernel" by (simp add: example_kernel_def)
  have u: "uninitialised example_kernel = []" by (simp add: example_kernel_def)
  have a: "kmalloc_buffer example_kernel \<and> kmalloc_cmdline example_kernel
           \<and> mm_again init_task = Some init_mm"
    by (simp add: example_kernel_def init_task_def)
  have n: "show_int (min (signed_take_bit 31 (int ((arg_end init_mm - arg_start init_mm) mod 2 ^ 64)))
                         (int (PAGE_SIZE example_kernel) - 2)) = ''11''"
    by (simp add: example_kernel_def init_mm_def show_eval)
  have e1: "arg_start init_mm < arg_end init_mm" by (simp add: init_mm_def)
  have e2: "\<not> arg_start no_args_mm < arg_end no_args_mm" by (simp add: no_args_mm_def)
  note th1 = cmdline_summary [OF h1 p, of "[]" init_task]
  note th2 = cmdline_summary [OF h2 p, of "[]" init_task]
  have r1: "fst (snd (read_cmdline (Some init_task) (Some []) (int (PAGE_SIZE example_kernel) - 1)))
              = cmdline_prefix @ ''11'' @ cmdline_suffix"
    using th1 [THEN conjunct1] e1 by (simp only: n if_True)
  have r2: "fst (snd (read_cmdline (Some no_args_task) (Some []) (int (PAGE_SIZE example_kernel) - 1)))
              = no_cmdline_text"
    using th2 [THEN conjunct1] e2 by (simp only: if_False)
  have r3: "fst (show_cmdline example_kernel init_task)
              = Some (cmdline_prefix @ ''11'' @ cmdline_suffix)"
    using th1 [THEN conjunct2, THEN conjunct2, THEN conjunct2, THEN conjunct2] a r1
    by (simp only: u simp_thms)
  from r1 r2 r3 show ?thesis by (simp only: simp_thms)
qed

section \<open>A write followed by a read\<close>

text \<open>
  Claim C7, as stated, at the payload \<open>2147483648\<close>: a positive decimal integer of ten
  bytes, whose write succeeds; the read that follows prints \<open>No valid PID provided\<close>
  and names no identifier.
\<close>

theorem write_then_read_counterexample:
  "length (ubytes int_min_buffer) \<le> 31
   \<and> decimal_text_value (c_string (ubytes int_min_buffer)) = Some 2147483648
   \<and> fst (process_info_write (- 1) int_min_buffer) = Inr 10
   \<and> first_line (seq (process_info_show example_kernel
                          (snd (process_info_write (- 1) int_min_buffer))))
       = ''No valid PID provided''"
proof -
  have w: "process_info_write (- 1) int_min_buffer = (Inr 10, - 2147483648)"
    by (simp add: write_eval int_min_buffer_def)
  have t: "decimal_text_value (c_string (ubytes int_min_buffer)) = Some 2147483648"
    by (simp add: text_eval int_min_buffer_def)
  show ?thesis
    by (simp add: w t read_first_line) (simp add: int_min_buffer_def)
qed

text \<open>
  Claim C7, amended. For every payload of at most 31 bytes that the caller's buffer
  yields and whose text is a decimal integer from 1 to 2147483647, the write succeeds
  and stores that integer, and the first line of a read that follows names exactly that
  identifier: \<open>PID: <id>\<close> when a process has it, \<open>Process with PID <id> not found\<close>
  when none has.
\<close>

theorem write_then_read:
  assumes "length (ubytes buf) \<le> 31" and "copy_from_user buf \<noteq> None"
    and "decimal_text_value (c_string (ubytes buf)) = Some v"
    and "0 < v" and "v < 2 ^ 31"
  shows "process_info_write old buf = (Inr (length (ubytes buf)), v)
         \<and> first_line (seq (process_info_show k (snd (process_info_write old buf))))
             = (if pid_task k v = None then ''Process with PID '' @ show_int v @ '' not found''
                else ''PID: '' @ show_int v)"
proof -
  have "signed_take_bit 31 v = v"
    using assms(4,5) by (intro signed_take_bit_int_eq_self) simp_all
  then have w: "process_info_write old buf = (Inr (length (ubytes buf)), v)"
    using assms by (auto simp: process_info_write_text copy_from_user_def split: if_splits)
  show ?thesis
    using assms(4) by (simp add: w read_first_line)
qed

text \<open>The payload \<open>1\<close> with a newline, then a read on the concrete kernel.\<close>

theorem write_then_read_witness:
  "length (ubytes small_pid_buffer) \<le> 31 \<and> copy_from_user small_pid_buffer \<noteq> None
   \<and> decimal_text_value (c_string (ubytes small_pid_buffer)) = Some 1
   \<and> process_info_write 7 small_pid_buffer = (Inr 2, 1)
   \<and> first_line (seq (process_info_show example_kernel (snd (process_info_write 7 small_pid_buffer))))
       = ''PID: 1''"
proof -
  have h1: "length (ubytes small_pid_buffer) \<le> 31" by (simp add: small_pid_buffer_def)
  have h2: "copy_from_user small_pid_buffer \<noteq> None"
    by (simp add: small_pid_buffer_def copy_from_user_def)
  have h3: "decimal_text_value (c_string (ubytes small_pid_buffer)) = Some 1"
    by (simp add: small_pid_buffer_def text_eval)
  have h4: "(0::int) < 1" and h5: "(1::int) < 2 ^ 31" by simp_all
  have l: "length (ubytes small_pid_buffer) = 2" by (simp add: small_pid_buffer_def)
  have s: "show_int 1 = ''1''" by (simp add: show_eval)
  note th = write_then_read [OF h1 h2 h3 h4 h5, of 7 example_kernel]
  have r1: "process_info_write 7 small_pid_buffer = (Inr 2, 1)"
    using th [THEN conjunct1] by (simp only: l)
  have r2: "first_line (seq (process_info_show example_kernel
                               (snd (process_info_write 7 small_pid_buffer)))) = ''PID: 1''"
    using th [THEN conjunct2] by (simp add: s example_tasks)
  from r1 r2 h1 h2 h3 show ?thesis by (simp only: simp_thms)
qed

lemma first_line_names:
  assumes "show_int p \<noteq> show_int v"
  shows "(if p \<le> 0 then ''No valid PID provided''
          else if pid_task k p = None then ''Process with PID '' @ show_int p @ '' not found''
          else ''PID: '' @ show_int p) \<noteq> ''PID: '' @ show_int v"
    and "(if p \<le> 0 then ''No valid PID provided''
          else if pid_task k p = None then ''Process with PID '' @ show_int p @ '' not found''
          else ''PID: '' @ show_int p) \<noteq> ''Process with PID '' @ show_int v @ '' not found''"
  using assms by simp_all

text \<open>
  Claim C10, as stated, at the payload \<open>4294967296\<close> written over the selection 7: the
  value fits a signed 64-bit \<^verbatim>\<open>long\<close> and lies outside the signed 32-bit range, the
  write succeeds and stores 0, and the read that follows prints
  \<open>No valid PID provided\<close>: it names no identifier at all.
\<close>

theorem write_narrows_counterexample:
  "length (ubytes zero_wrap_buffer) \<le> 31 \<and> copy_from_user zero_wrap_buffer \<noteq> None
   \<and> decimal_text_value (c_string (ubytes zero_wrap_buffer)) = Some 4294967296
   \<and> process_info_write 7 zero_wrap_buffer = (Inr 10, 0)
   \<and> seq (process_info_show example_kernel (snd (process_info_write 7 zero_wrap_buffer)))
       = ''No valid PID provided'' @ [newline]"
proof -
  have a: "length (ubytes zero_wrap_buffer) \<le> 31 \<and> copy_from_user zero_wrap_buffer \<noteq> None"
    by (simp add: zero_wrap_buffer_def copy_from_user_def)
  have b: "decimal_text_value (c_string (ubytes zero_wrap_buffer)) = Some 4294967296"
    by (simp add: zero_wrap_buffer_def text_eval)
  have c: "process_info_write 7 zero_wrap_buffer = (Inr 10, 0)"
    by (simp add: write_eval zero_wrap_buffer_def)
  have d: "seq (process_info_show example_kernel (snd (process_info_write 7 zero_wrap_buffer)))
       = ''No valid PID provided'' @ [newline]"
    unfolding c by (simp add: process_info_show_seq)
  from a b c d show ?thesis by (simp only: simp_thms)
qed

text \<open>
  Claim C10, amended. For every payload of at most 31 bytes that the caller's buffer
  yields and whose text denotes a value of the signed 64-bit range outside the signed
  32-bit range, the write succeeds and the stored selection is the value narrowed to
  32 bits (read as a signed \<^verbatim>\<open>pid_t\<close>), which differs from the value written; the
  read that follows names the narrowed identifier when it is positive and prints
  \<open>No valid PID provided\<close> when it is not, and in neither case does its first line
  name the identifier written.
\<close>

theorem write_narrows_selection:
  assumes "length (ubytes buf) \<le> 31" and "copy_from_user buf \<noteq> None"
    and "decimal_text_value (c_string (ubytes buf)) = Some v"
    and "- (2 ^ 63) \<le> v" and "v < 2 ^ 63"
    and "v < - (2 ^ 31) \<or> 2 ^ 31 \<le> v"
  shows "process_info_write old buf = (Inr (length (ubytes buf)), signed_take_bit 31 v)
         \<and> signed_take_bit 31 v \<noteq> v
         \<and> first_line (seq (process_info_show k (snd (process_info_write old buf))))
             = (if signed_take_bit 31 v \<le> 0 then ''No valid PID provided''
                else if pid_task k (signed_take_bit 31 v) = None
                     then ''Process with PID '' @ show_int (signed_take_bit 31 v) @ '' not found''
                else ''PID: '' @ show_int (signed_take_bit 31 v))
         \<and> first_line (seq (process_info_show k (snd (process_info_write old buf))))
             \<noteq> ''PID: '' @ show_int v
         \<and> first_line (seq (process_info_show k (snd (process_info_write old buf))))
             \<noteq> ''Process with PID '' @ show_int v @ '' not found''"
proof -
  have w: "process_info_write old buf = (Inr (length (ubytes buf)), signed_take_bit 31 v)"
    using assms(1-5)
    by (auto simp: process_info_write_text copy_from_user_def split: if_splits)
  have ne: "signed_take_bit 31 v \<noteq> v"
  proof
    assume "signed_take_bit 31 v = v"
    then have "- (2 ^ 31) \<le> v \<and> v < 2 ^ 31"
      by (simp only: signed_take_bit_int_eq_self_iff)
    with assms(6) show False by linarith
  qed
  then have "show_int (signed_take_bit 31 v) \<noteq> show_int v"
    using show_int_inj by blast
  from first_line_names [OF this, of k] ne show ?thesis
    by (simp only: w snd_conv read_first_line simp_thms)
qed

text \<open>
  The payload \<open>4294967298\<close> selects process 2, and the payload \<open>4294967296\<close> leaves
  no selection.
\<close>

theorem write_narrows_selection_witness:
  "length (ubytes wrapped_pid_buffer) \<le> 31 \<and> copy_from_user wrapped_pid_buffer \<noteq> None
   \<and> decimal_text_value (c_string (ubytes wrapped_pid_buffer)) = Some 4294967298
   \<and> process_info_write 7 wrapped_pid_buffer = (Inr 10, 2)
   \<and> first_line (seq (process_info_show example_kernel
                         (snd (process_info_write 7 wrapped_pid_buffer)))) = ''PID: 2''
   \<and> first_line (seq (process_info_show example_kernel
                         (snd (process_info_write 7 zero_wrap_buffer))))
       = ''No valid PID provided''"
proof -
  have h1: "length (ubytes wrapped_pid_buffer) \<le> 31" by (simp add: wrapped_pid_buffer_def)
  have h2: "copy_from_user wrapped_pid_buffer \<noteq> None"
    by (simp add: wrapped_pid_buffer_def copy_from_user_def)
  have h3: "decimal_text_value (c_string (ubytes wrapped_pid_buffer)) = Some 4294967298"
    by (simp add: wrapped_pid_buffer_def text_eval)
  have h4: "- (2 ^ 63) \<le> (4294967298::int)" and h5: "(4294967298::int) < 2 ^ 63"
    and h6: "(4294967298::int) < - (2 ^ 31) \<or> 2 ^ 31 \<le> (4294967298::int)" by simp_all
  have l: "length (ubytes wrapped_pid_buffer) = 10" by (simp add: wrapped_pid_buffer_def)
  have n: "signed_take_bit 31 (4294967298::int) = 2" by simp
  have s: "show_int 2 = ''2''" by (simp add: show_eval)
  note th = write_narrows_selection [OF h1 h2 h3 h4 h5 h6, of 7 example_kernel]
  have r1: "process_info_write 7 wrapped_pid_buffer = (Inr 10, 2)"
    using th [THEN conjunct1] by (simp only: l n)
  have r2: "first_line (seq (process_info_show example_kernel
                               (snd (process_info_write 7 wrapped_pid_buffer)))) = ''PID: 2''"
    using th [THEN conjunct2, THEN conjunct2, THEN conjunct1] by (simp add: s example_tasks)
  have z1: "length (ubytes zero_wrap_buffer) \<le> 31" by (simp add: zero_wrap_buffer_def)
  have z2: "copy_from_user zero_wrap_buffer \<noteq> None"
    by (simp add: zero_wrap_buffer_def copy_from_user_def)
  have z3: "decimal_text_value (c_string (ubytes zero_wrap_buffer)) = Some 4294967296"
    by (simp add: zero_wrap_buffer_def text_eval)
  have z4: "- (2 ^ 63) \<le> (4294967296::int)" and z5: "(4294967296::int) < 2 ^ 63"
    and z6: "(4294967296::int) < - (2 ^ 31) \<or> 2 ^ 31 \<le> (4294967296::int)" by simp_all
  have zn: "signed_take_bit 31 (4294967296::int) = 0" by simp
  note tz = write_narrows_selection [OF z1 z2 z3 z4 z5 z6, of 7 example_kernel]
  have r3: "first_line (seq (process_info_show example_kernel
                               (snd (process_info_write 7 zero_wrap_buffer))))
              = ''No valid PID provided''"
    using tz [THEN conjunct2, THEN conjunct2, THEN conjunct1] by (simp add: zn)
  from r1 r2 r3 h1 h2 h3 show ?thesis by (simp only: simp_thms)
qed

section \<open>Resources taken and given back\<close>

lemma read_cmdline_trace:
  "snd (snd (read_cmdline task buffer n)) \<in> {[], [GetTaskMm False], [GetTaskMm True, MmPut]}"
  by (simp add: read_cmdline_def Let_def split: option.splits)

lemma show_exec_path_trace:
  "snd (show_exec_path k m) \<in>
     {[Kmalloc PATH_MAX GFP_KERNEL True, DownRead, UpRead], [Kmalloc PATH_MAX GFP_KERNEL False]}"
  by (simp add: show_exec_path_def Let_def)

lemma show_cmdline_trace:
  "mm t \<noteq> None \<Longrightarrow>
   snd (show_cmdline k t) \<in>
     {[Kmalloc (PAGE_SIZE k) GFP_KERNEL True, Kmalloc (PAGE_SIZE k) GFP_KERNEL True,
       GetTaskMm True, MmPut, Kfree],
      [Kmalloc (PAGE_SIZE k) GFP_KERNEL True, Kmalloc (PAGE_SIZE k) GFP_KERNEL True,
       GetTaskMm False, Kfree],
      [Kmalloc (PAGE_SIZE k) GFP_KERNEL True, Kmalloc (PAGE_SIZE k) GFP_KERNEL False, Kfree],
      [Kmalloc (PAGE_SIZE k) GFP_KERNEL False]}"
  by (auto simp: show_cmdline_def read_cmdline_def Let_def split: option.splits prod.splits)

lemma process_info_show_trace:
  "trace (process_info_show k pid) =
     (if pid \<le> 0 then []
      else (case pid_task k pid of
              None \<Rightarrow> [RcuReadLock, RcuReadUnlock]
            | Some t \<Rightarrow>
                (case mm t of
                   None \<Rightarrow> [RcuReadLock, GetTaskMm False, RcuReadUnlock]
                 | Some m \<Rightarrow>
                     [RcuReadLock, GetTaskMm True] @ snd (show_exec_path k m)
                       @ snd (show_cmdline k t) @ [MmPut]
                       @ (if kmalloc_exec_path k then [Kfree] else [])
                       @ (if kmalloc_buffer k \<and> kmalloc_cmdline k then [Kfree] else [])
                       @ [RcuReadUnlock])))"
  by (auto simp: process_info_show_def show_exec_path_def show_cmdline_def Let_def
      split: option.splits prod.splits)

lemma example_trace:
  "trace (process_info_show example_kernel 1) =
     [RcuReadLock, GetTaskMm True, Kmalloc 4096 GFP_KERNEL True, DownRead, UpRead,
      Kmalloc 4096 GFP_KERNEL True, Kmalloc 4096 GFP_KERNEL True, GetTaskMm True, MmPut, Kfree,
      MmPut, Kfree, Kfree, RcuReadUnlock]"
  by (simp add: process_info_show_trace show_exec_path_def show_cmdline_def read_cmdline_def
      kernel_eval Let_def)

text \<open>
  Claim C8. On every path of a read, the memory-map references taken are given back one
  by one and none is held when the read completes, and the memory-map lock is not held
  when the read completes; \<^verbatim>\<open>read_cmdline\<close> gives back the reference it takes on every
  path, and the block that resolves the executable path releases the lock it takes on
  every path, a failed path resolution included.
\<close>

theorem resources_released:
  "mm_refs (trace (process_info_show k pid)) 0 = Some 0
   \<and> mmap_lock (trace (process_info_show k pid)) False = Some False
   \<and> mm_refs (snd (snd (read_cmdline task buffer n))) 0 = Some 0
   \<and> mmap_lock (snd (show_exec_path k m)) False = Some False"
proof -
  have a: "mm_refs (snd (snd (read_cmdline task buffer n))) 0 = Some 0"
    using read_cmdline_trace [of task buffer n] by auto
  have b: "mmap_lock (snd (show_exec_path k m)) False = Some False"
    using show_exec_path_trace [of k m] by auto
  have c: "mm_refs (trace (process_info_show k pid)) 0 = Some 0
           \<and> mmap_lock (trace (process_info_show k pid)) False = Some False"
  proof (cases "pid \<le> 0 \<or> pid_task k pid = None")
    case True
    then show ?thesis by (auto simp: process_info_show_trace)
  next
    case False
    then obtain t where t: "pid_task k pid = Some t" and pos: "\<not> pid \<le> 0" by auto
    show ?thesis
    proof (cases "mm t")
      case None
      with t pos show ?thesis by (simp add: process_info_show_trace)
    next
      case (Some m')
      then have "mm t \<noteq> None" by simp
      from show_cmdline_trace [OF this, of k] show_exec_path_trace [of k m'] t pos Some
      show ?thesis
        by (auto simp: process_info_show_trace)
    qed
  qed
  from a b c show ?thesis by simp
qed

text \<open>The calls of a read of process 1 on the concrete kernel.\<close>

theorem resources_released_witness:
  "mm_refs [RcuReadLock, GetTaskMm True, Kmalloc 4096 GFP_KERNEL True, DownRead, UpRead,
      Kmalloc 4096 GFP_KERNEL True, Kmalloc 4096 GFP_KERNEL True, GetTaskMm True, MmPut, Kfree,
      MmPut, Kfree, Kfree, RcuReadUnlock] 0 = Some 0
   \<and> mmap_lock (trace (process_info_show example_kernel 1)) False = Some False"
  using resources_released [of example_kernel 1 None None 0 undefined]
  by (simp only: example_trace simp_thms)

text \<open>
  Claim C9, as stated, at a read of process 1 on the concrete kernel: buffers are
  requested with \<^verbatim>\<open>GFP_KERNEL\<close>, which may block, while the table guard is held.
\<close>

theorem guard_held_across_allocation:
  "\<not> allocations_outside_guard (trace (process_info_show example_kernel 1)) False"
  by (simp add: process_info_show_trace show_exec_path_def show_cmdline_def read_cmdline_def
      kernel_eval Let_def)

text \<open>
  Claim C9, amended. During every read the acquisitions are strictly nested: the table
  guard is taken first, then (optionally) a memory-map handle, then the memory-map
  lock, and they are released in the reverse order before the guard is dropped.
\<close>

theorem acquisitions_nested:
  "nested (trace (process_info_show k pid)) []"
proof (cases "pid \<le> 0 \<or> pid_task k pid = None")
  case True
  then show ?thesis by (auto simp: process_info_show_trace)
next
  case False
  then obtain t where t: "pid_task k pid = Some t" and pos: "\<not> pid \<le> 0" by auto
  show ?thesis
  proof (cases "mm t")
    case None
    with t pos show ?thesis by (simp add: process_info_show_trace)
  next
    case (Some m')
    then have "mm t \<noteq> None" by simp
    from show_cmdline_trace [OF this, of k] show_exec_path_trace [of k m'] t pos Some
    show ?thesis
      by (auto simp: process_info_show_trace)
  qed
qed

text \<open>The calls of a read of process 1 on the concrete kernel are nested.\<close>

theorem acquisitions_nested_witness:
  "nested [RcuReadLock, GetTaskMm True, Kmalloc 4096 GFP_KERNEL True, DownRead, UpRead,
      Kmalloc 4096 GFP_KERNEL True, Kmalloc 4096 GFP_KERNEL True, GetTaskMm True, MmPut, Kfree,
      MmPut, Kfree, Kfree, RcuReadUnlock] []"
  using acquisitions_nested [of example_kernel 1]
  by (simp only: example_trace)

end
